theory Spec2Isabelle
  imports Complex_Main "HOL-Library.Word"
begin

unbundle bit_operations_syntax

section \<open>Strings and numbers of the host language\<close>

text \<open>
  Strings are lists of 8-bit characters (code units up to 255). Numbers that the
  blueprint carries are rationals: every finite double is one. The renderer's arithmetic
  on them (sums, products with small integers) is taken exactly; the runtime rounds each
  result to the nearest double, which changes nothing at the integer coordinates that the
  properties below evaluate.
\<close>

definition isWhiteSpace :: "char \<Rightarrow> bool" where
  \<comment> \<open>tab, line feed, vertical tab, form feed, carriage return, space, no-break space\<close>
  "isWhiteSpace c = (of_char c \<in> {9, 10, 11, 12, 13, 32, 160 :: nat})"

definition trim :: "string \<Rightarrow> string" where
  "trim s = rev (dropWhile isWhiteSpace (rev (dropWhile isWhiteSpace s)))"

text \<open>\<^verbatim>\<open>String.prototype.replace\<close> with a string pattern replaces the first occurrence only;
  with a one-character pattern and an empty replacement it removes that occurrence.\<close>

definition replaceFirstChar :: "char \<Rightarrow> string \<Rightarrow> string" where
  "replaceFirstChar c s = remove1 c s"

definition repeat2 :: "string \<Rightarrow> string" where
  "repeat2 s = s @ s"

fun indexFrom :: "char \<Rightarrow> string \<Rightarrow> nat \<Rightarrow> int" where
  "indexFrom c [] i = - 1"
| "indexFrom c (d # ds) i = (if d = c then int i else indexFrom c ds (Suc i))"

definition indexOf :: "string \<Rightarrow> char \<Rightarrow> int" where
  "indexOf s c = indexFrom c s 0"

fun lastIndexFrom :: "char \<Rightarrow> string \<Rightarrow> nat \<Rightarrow> int \<Rightarrow> int" where
  "lastIndexFrom c [] i found = found"
| "lastIndexFrom c (d # ds) i found =
     lastIndexFrom c ds (Suc i) (if d = c then int i else found)"

definition lastIndexOf :: "string \<Rightarrow> char \<Rightarrow> int" where
  "lastIndexOf s c = lastIndexFrom c s 0 (- 1)"

definition sliceString :: "string \<Rightarrow> int \<Rightarrow> int \<Rightarrow> string" where
  \<comment> \<open>\<^verbatim>\<open>s.slice(b, e)\<close>: negative indices count from the end, both are clamped\<close>
  "sliceString s b e =
     (let n = int (length s);
          from = (if b < 0 then max (n + b) 0 else min b n);
          upto = (if e < 0 then max (n + e) 0 else min e n)
      in take (nat (upto - from)) (drop (nat from) s))"

subsection \<open>Numbers as \<^verbatim>\<open>parseInt\<close> and the bit operators see them\<close>

datatype number = NaN | PosInfinity | NegInfinity | Num int

fun bitLength :: "nat \<Rightarrow> nat" where
  "bitLength n = (if n = 0 then 0 else Suc (bitLength (n div 2)))"

declare bitLength.simps [simp del]

definition roundToDouble :: "nat \<Rightarrow> nat option" where
  \<comment> \<open>the double nearest to an integer, ties to even; \<open>None\<close> is an overflow to infinity\<close>
  "roundToDouble n =
     (if n < 2 ^ 53 then Some n
      else let e = bitLength n - 53;
               q = n div 2 ^ e;
               r = n mod 2 ^ e;
               half = 2 ^ (e - 1);
               q' = (if half < r \<or> (r = half \<and> odd q) then q + 1 else q);
               v = q' * 2 ^ e
           in if 2 ^ 1024 \<le> v then None else Some v)"

definition hexDigit :: "char \<Rightarrow> nat option" where
  "hexDigit c =
     (let n = (of_char c :: nat)
      in if 48 \<le> n \<and> n \<le> 57 then Some (n - 48)
         else if 97 \<le> n \<and> n \<le> 102 then Some (n - 87)
         else if 65 \<le> n \<and> n \<le> 70 then Some (n - 55)
         else None)"

definition hexValue :: "string \<Rightarrow> nat" where
  "hexValue ds = foldl (\<lambda>acc c. case hexDigit c of Some d \<Rightarrow> 16 * acc + d | None \<Rightarrow> acc) 0 ds"

definition parseInt16 :: "string \<Rightarrow> number" where
  \<comment> \<open>\<^verbatim>\<open>parseInt(s, 16)\<close>: leading white space, a sign, an optional 0x, then the longest run
      of hexadecimal digits; no digit at all is NaN\<close>
  "parseInt16 s =
     (let s1 = dropWhile isWhiteSpace s;
          negative = (s1 \<noteq> [] \<and> hd s1 = CHR ''-'');
          s2 = (if s1 \<noteq> [] \<and> (hd s1 = CHR ''-'' \<or> hd s1 = CHR ''+'') then tl s1 else s1);
          s3 = (if take 2 s2 = ''0x'' \<or> take 2 s2 = ''0X'' then drop 2 s2 else s2);
          ds = takeWhile (\<lambda>c. hexDigit c \<noteq> None) s3
      in if ds = [] then NaN
         else case roundToDouble (hexValue ds) of
                None \<Rightarrow> (if negative then NegInfinity else PosInfinity)
              | Some v \<Rightarrow> Num (if negative then - int v else int v))"

definition toInt32 :: "number \<Rightarrow> 32 word" where
  "toInt32 v = (case v of Num i \<Rightarrow> word_of_int i | _ \<Rightarrow> 0)"

section \<open>Color codec\<close>

record RGB =
  r :: rat
  g :: rat
  b :: rat

definition channel :: "32 word \<Rightarrow> rat" where
  \<comment> \<open>a channel byte divided by 255\<close>
  "channel w = of_int (uint w) / 255"

definition hexToRgb :: "string \<Rightarrow> RGB" where
  "hexToRgb hex =
     (let normalized = trim (replaceFirstChar CHR ''#'' hex);
          bigint = toInt32 (parseInt16 (if length normalized = 3 then repeat2 normalized
                                         else normalized))
      in \<lparr> r = channel (signed_drop_bit 16 bigint AND 255),
           g = channel (signed_drop_bit 8 bigint AND 255),
           b = channel (bigint AND 255) \<rparr>)"

definition expandDigits :: "string \<Rightarrow> string" where
  \<comment> \<open>the expansion the data model describes: every digit written twice, in place\<close>
  "expandDigits s = concat (map (\<lambda>c. [c, c]) s)"

section \<open>Response extractor\<close>

fun lazyUntilFence :: "string \<Rightarrow> string option" where
  \<comment> \<open>the shortest prefix that is followed by three backticks\<close>
  "lazyUntilFence [] = None"
| "lazyUntilFence (c # cs) =
     (if take 3 (c # cs) = ''```'' then Some []
      else map_option ((#) c) (lazyUntilFence cs))"

fun fenceMatch :: "string \<Rightarrow> string option" where
  \<comment> \<open>capture group 1 of the first match of the fence pattern, scanning start positions
      from the left\<close>
  "fenceMatch [] = None"
| "fenceMatch (c # cs) =
     (if take 7 (c # cs) = ''```json''
      then (case lazyUntilFence (drop 7 (c # cs)) of
              Some inner \<Rightarrow> Some inner
            | None \<Rightarrow> fenceMatch cs)
      else fenceMatch cs)"

definition braceSlice :: "string \<Rightarrow> string option" where
  "braceSlice text =
     (let braceIndex = indexOf text CHR ''{''
      in if 0 \<le> braceIndex
         then (let lastBrace = lastIndexOf text CHR ''}''
               in if braceIndex < lastBrace
                  then Some (sliceString text braceIndex (lastBrace + 1))
                  else None)
         else None)"

definition extractJson :: "string \<Rightarrow> string option" where
  "extractJson text =
     (if text = [] then None
      else case fenceMatch text of
             Some inner \<Rightarrow> (if inner \<noteq> [] then Some (trim inner) else braceSlice text)
           | None \<Rightarrow> braceSlice text)"


text \<open>The extraction policy in the words of the specification: a fenced block tagged
  json exists; the result is the substring from the first opening brace to the last
  closing brace, or nothing when no opening brace precedes a closing one.\<close>

definition hasJsonFence :: "string \<Rightarrow> bool" where
  "hasJsonFence text = (\<exists>pre inner post. text = pre @ ''```json'' @ inner @ ''```'' @ post)"

definition firstFence :: "string \<Rightarrow> string \<Rightarrow> bool" where
  \<comment> \<open>the interior of the leftmost fenced block, up to its nearest closing fence\<close>
  "firstFence text inner \<longleftrightarrow>
     (\<exists>pre post. text = pre @ ''```json'' @ inner @ ''```'' @ post \<and>
        (\<forall>pre' inner' post'. text = pre' @ ''```json'' @ inner' @ ''```'' @ post' \<longrightarrow>
            length pre < length pre' \<or>
            (length pre = length pre' \<and> length inner \<le> length inner')))"

definition braceDelimited :: "string \<Rightarrow> string option \<Rightarrow> bool" where
  "braceDelimited text res =
     (case res of
        Some s \<Rightarrow> \<exists>a m z. text = a @ ''{'' @ m @ ''}'' @ z \<and> CHR ''{'' \<notin> set a \<and>
                     CHR ''}'' \<notin> set z \<and> s = ''{'' @ m @ ''}''
      | None \<Rightarrow> \<not> (\<exists>a m z. text = a @ ''{'' @ m @ ''}'' @ z))"

section \<open>Blueprint\<close>

text \<open>
  The blueprint is parsed from the remote service's JSON and is not validated: every
  field of a descriptor may be absent, and the kind of a node is any string. A node
  descriptor is its scalar fields and its optional list of nested descriptors. The fields
  carry the prefix of their interface (\<open>node_x\<close> is \<^verbatim>\<open>node.x\<close>).
\<close>

record NodeFields =
  node_type :: string
  node_title :: "string option"
  node_content :: "string option"
  node_x :: "rat option"
  node_y :: "rat option"
  node_width :: "rat option"
  node_height :: "rat option"
  node_fontSize :: "rat option"
  node_fontWeight :: "string option"
  node_color :: "string option"
  node_fill :: "string option"
  node_stroke :: "string option"
  node_cornerRadius :: "rat option"
  node_spacing :: "rat option"

datatype BlueprintNode = BlueprintNode (node_fields: NodeFields) (node_nodes: "BlueprintNode list option")

record BlueprintFrame =
  frame_name :: "string option"
  frame_description :: "string option"
  frame_width :: "rat option"
  frame_height :: "rat option"
  frame_background :: "string option"
  frame_nodes :: "BlueprintNode list option"

record GeminiBlueprint =
  frames :: "BlueprintFrame list option"

datatype GenerationMode = Screen | UserFlow | Personas | Architecture | Storyboard

definition nullish :: "'a option \<Rightarrow> 'a \<Rightarrow> 'a" where
  \<comment> \<open>\<^verbatim>\<open>v ?? d\<close>\<close>
  "nullish v d = (case v of Some a \<Rightarrow> a | None \<Rightarrow> d)"

definition orString :: "string option \<Rightarrow> string \<Rightarrow> string" where
  \<comment> \<open>\<^verbatim>\<open>v || d\<close> on a string: absent and empty are falsy\<close>
  "orString v d = (case v of Some a \<Rightarrow> (if a = [] then d else a) | None \<Rightarrow> d)"

definition orNumber :: "rat option \<Rightarrow> rat \<Rightarrow> rat" where
  \<comment> \<open>\<^verbatim>\<open>v || d\<close> on a number: absent and zero are falsy\<close>
  "orNumber v d = (case v of Some a \<Rightarrow> (if a = 0 then d else a) | None \<Rightarrow> d)"

definition truthy :: "string option \<Rightarrow> bool" where
  "truthy v = (case v of Some a \<Rightarrow> a \<noteq> [] | None \<Rightarrow> False)"

section \<open>The host editor\<close>

text \<open>
  What the plugin does to the editor is modelled on an explicit store. A scene node is
  identified by its index in \<open>scene\<close>, in creation order; it knows its parent (none
  while it is a child of the page) and its children, in order. A value thrown by the
  editor or the runtime is either an \<^verbatim>\<open>Error\<close> with its message or something else.
  The session also holds the plugin's own set of loaded fonts, and logs of what the editor
  was asked: the fonts requested from \<^verbatim>\<open>loadFontAsync\<close> and the notices shown.
\<close>

datatype thrown = Error string | NonError

datatype NodeKind = FRAME | TEXT

record Paint =
  paint_color :: RGB
  paint_opacity :: "rat option"

definition solid :: "RGB \<Rightarrow> Paint" where
  "solid c = \<lparr> paint_color = c, paint_opacity = None \<rparr>"

datatype Prop =
    Name string | PosX rat | PosY rat | Characters string | FontSize rat
  | FontName string string | Fills "Paint list" | Strokes "Paint list" | CornerRadius rat
  | LayoutMode string | PaddingTop rat | PaddingRight rat | PaddingBottom rat
  | PaddingLeft rat | ItemSpacing rat

record SceneNode =
  kind :: NodeKind
  parent :: "nat option"
  children :: "nat list"
  name :: string
  posX :: rat
  posY :: rat
  width :: rat
  height :: rat
  characters :: string
  fontSize :: rat
  fontName :: "string \<times> string"
  fills :: "Paint list"
  strokes :: "Paint list"
  cornerRadius :: rat
  layoutMode :: string
  paddingTop :: rat
  paddingRight :: rat
  paddingBottom :: rat
  paddingLeft :: rat
  itemSpacing :: rat

definition freshNode :: "NodeKind \<Rightarrow> SceneNode" where
  \<comment> \<open>a node as the editor creates it, before the plugin sets anything\<close>
  "freshNode k =
     \<lparr> kind = k, parent = None, children = [],
       name = (if k = FRAME then ''Frame'' else ''Text''),
       posX = 0, posY = 0, width = 100, height = 100, characters = [],
       fontSize = 12, fontName = (''Inter'', ''Regular''),
       fills = (if k = FRAME then [solid \<lparr> r = 1, g = 1, b = 1 \<rparr>]
                else [solid \<lparr> r = 0, g = 0, b = 0 \<rparr>]),
       strokes = [], cornerRadius = 0, layoutMode = ''NONE'',
       paddingTop = 0, paddingRight = 0, paddingBottom = 0, paddingLeft = 0,
       itemSpacing = 0 \<rparr>"

fun applyProp :: "Prop \<Rightarrow> SceneNode \<Rightarrow> SceneNode" where
  "applyProp (Name v) n = n\<lparr>name := v\<rparr>"
| "applyProp (PosX v) n = n\<lparr>posX := v\<rparr>"
| "applyProp (PosY v) n = n\<lparr>posY := v\<rparr>"
| "applyProp (Characters v) n = n\<lparr>characters := v\<rparr>"
| "applyProp (FontSize v) n = n\<lparr>fontSize := v\<rparr>"
| "applyProp (FontName fam sty) n = n\<lparr>fontName := (fam, sty)\<rparr>"
| "applyProp (Fills v) n = n\<lparr>fills := v\<rparr>"
| "applyProp (Strokes v) n = n\<lparr>strokes := v\<rparr>"
| "applyProp (CornerRadius v) n = n\<lparr>cornerRadius := v\<rparr>"
| "applyProp (LayoutMode v) n = n\<lparr>layoutMode := v\<rparr>"
| "applyProp (PaddingTop v) n = n\<lparr>paddingTop := v\<rparr>"
| "applyProp (PaddingRight v) n = n\<lparr>paddingRight := v\<rparr>"
| "applyProp (PaddingBottom v) n = n\<lparr>paddingBottom := v\<rparr>"
| "applyProp (PaddingLeft v) n = n\<lparr>paddingLeft := v\<rparr>"
| "applyProp (ItemSpacing v) n = n\<lparr>itemSpacing := v\<rparr>"

datatype HostCall =
    CreateFrame | CreateText | Assign nat Prop | Resize nat rat rat | AppendChild nat nat
  | LoadFontAsync string string | Notify string | Select "nat list"
  | ScrollAndZoomIntoView "nat list"

record Session =
  scene :: "SceneNode list"
  page :: "nat list"
  loadedFonts :: "string list"
  fontLoads :: "(string \<times> string) list"
  notices :: "string list"
  selection :: "nat list"
  viewportCenter :: "rat \<times> rat"

type_synonym 'a run = "Session \<Rightarrow> (thrown + 'a) \<times> Session"

definition result :: "'a \<Rightarrow> 'a run" where
  \<comment> \<open>a normal return\<close>
  "result a s = (Inr a, s)"

fun continueWith :: "(thrown + 'a) \<times> 's \<Rightarrow> ('a \<Rightarrow> 's \<Rightarrow> (thrown + 'b) \<times> 's) \<Rightarrow> (thrown + 'b) \<times> 's" where
  "continueWith (Inl e, s) f = (Inl e, s)"
| "continueWith (Inr a, s) f = f a s"

definition andThen :: "('s \<Rightarrow> (thrown + 'a) \<times> 's) \<Rightarrow> ('a \<Rightarrow> 's \<Rightarrow> (thrown + 'b) \<times> 's) \<Rightarrow> 's \<Rightarrow> (thrown + 'b) \<times> 's" where
  \<comment> \<open>sequencing: a throw ends the run, in the state reached\<close>
  "andThen m f s = continueWith (m s) f"

text \<open>
  The editor is an external collaborator. Every call into it may be rejected (it throws, or
  the promise it returns is rejected); which calls it rejects, in which state, is a
  parameter of the model.
\<close>

record Host =
  rejects :: "Session \<Rightarrow> HostCall \<Rightarrow> thrown option"
  centerAfterZoom :: "Session \<Rightarrow> nat list \<Rightarrow> rat \<times> rat"

definition hostCall :: "Host \<Rightarrow> HostCall \<Rightarrow> (Session \<Rightarrow> 'a \<times> Session) \<Rightarrow> 'a run" where
  "hostCall host c effect s =
     (case rejects host s c of
        Some e \<Rightarrow> (Inl e, s)
      | None \<Rightarrow> apfst Inr (effect s))"

definition allocate :: "NodeKind \<Rightarrow> Session \<Rightarrow> nat \<times> Session" where
  \<comment> \<open>a new node gets the next identifier and starts as a child of the current page\<close>
  "allocate k s =
     (length (scene s),
      s\<lparr>scene := scene s @ [freshNode k], page := page s @ [length (scene s)]\<rparr>)"

definition createFrame :: "Host \<Rightarrow> nat run" where
  "createFrame host = hostCall host CreateFrame (allocate FRAME)"

definition createText :: "Host \<Rightarrow> nat run" where
  "createText host = hostCall host CreateText (allocate TEXT)"

definition assign :: "Host \<Rightarrow> nat \<Rightarrow> Prop \<Rightarrow> unit run" where
  "assign host i p =
     hostCall host (Assign i p)
       (\<lambda>s. ((), if i < length (scene s)
                  then s\<lparr>scene := (scene s)[i := applyProp p (scene s ! i)]\<rparr> else s))"

definition resize :: "Host \<Rightarrow> nat \<Rightarrow> rat \<Rightarrow> rat \<Rightarrow> unit run" where
  "resize host i w h =
     hostCall host (Resize i w h)
       (\<lambda>s. ((), if i < length (scene s)
                  then s\<lparr>scene := (scene s)[i := (scene s ! i)\<lparr>width := w, height := h\<rparr>]\<rparr>
                  else s))"

definition attach :: "nat \<Rightarrow> nat \<Rightarrow> Session \<Rightarrow> Session" where
  \<comment> \<open>the child leaves its previous parent (a node, or the page) and becomes the last
      child of the new one\<close>
  "attach p c s =
     (if p < length (scene s) \<and> c < length (scene s)
      then (let sc = scene s;
                detached = (case parent (sc ! c) of
                              None \<Rightarrow> sc
                            | Some q \<Rightarrow>
                                sc[q := (sc ! q)\<lparr>children := removeAll c (children (sc ! q))\<rparr>]);
                moved = detached[c := (detached ! c)\<lparr>parent := Some p\<rparr>];
                adopted = moved[p := (moved ! p)\<lparr>children := children (moved ! p) @ [c]\<rparr>]
            in s\<lparr>scene := adopted, page := removeAll c (page s)\<rparr>)
      else s)"

definition appendChild :: "Host \<Rightarrow> nat \<Rightarrow> nat \<Rightarrow> unit run" where
  "appendChild host p c = hostCall host (AppendChild p c) (\<lambda>s. ((), attach p c s))"

definition notify :: "Host \<Rightarrow> string \<Rightarrow> unit run" where
  "notify host msg = hostCall host (Notify msg) (\<lambda>s. ((), s\<lparr>notices := notices s @ [msg]\<rparr>))"

definition select :: "Host \<Rightarrow> nat list \<Rightarrow> unit run" where
  "select host ids = hostCall host (Select ids) (\<lambda>s. ((), s\<lparr>selection := ids\<rparr>))"

definition scrollAndZoomIntoView :: "Host \<Rightarrow> nat list \<Rightarrow> unit run" where
  "scrollAndZoomIntoView host ids =
     hostCall host (ScrollAndZoomIntoView ids)
       (\<lambda>s. ((), s\<lparr>viewportCenter := centerAfterZoom host s ids\<rparr>))"

definition loadFontAsync :: "Host \<Rightarrow> string \<Rightarrow> string \<Rightarrow> unit run" where
  \<comment> \<open>the request is logged whether the editor then loads the font or rejects\<close>
  "loadFontAsync host family style s =
     (let s1 = s\<lparr>fontLoads := fontLoads s @ [(family, style)]\<rparr>
      in case rejects host s (LoadFontAsync family style) of
           Some e \<Rightarrow> (Inl e, s1)
         | None \<Rightarrow> (Inr (), s1))"

section \<open>Font cache\<close>

text \<open>The set of loaded fonts is a list without duplicates, in insertion order.\<close>

definition setAdd :: "string \<Rightarrow> string list \<Rightarrow> string list" where
  "setAdd k ks = (if k \<in> set ks then ks else ks @ [k])"

definition ensureFont :: "Host \<Rightarrow> string \<Rightarrow> unit run" where
  "ensureFont host style s =
     (let key = ''Inter-'' @ style
      in if key \<in> set (loadedFonts s) then (Inr (), s)
         else andThen (loadFontAsync host ''Inter'' style)
                (\<lambda>_ s'. (Inr (), s'\<lparr>loadedFonts := setAdd key (loadedFonts s')\<rparr>)) s)"

definition fontStyle :: "string option \<Rightarrow> string" where
  \<comment> \<open>the style a text node asks for, from its weight token\<close>
  "fontStyle weight =
     (if weight = Some ''bold'' then ''Bold''
      else if weight = Some ''semi-bold'' then ''Semi Bold''
      else ''Medium'')"

section \<open>Node renderers and tree walker\<close>

text \<open>
  The renderers follow the source statement by statement; each assignment to a property of
  a scene node is a call into the editor. The body of \<^verbatim>\<open>createBlockNode\<close> is given in
  three parts: \<open>blockContainer\<close> creates and styles the container and, through
  \<open>blockHeading\<close>, adds the title and body texts; the recursive function then walks
  the nested descriptors and appends the container to its parent. The loop of
  \<^verbatim>\<open>placeNodes\<close> is \<open>placeFrom\<close>, which carries the running index.
\<close>

definition createTextNode :: "Host \<Rightarrow> nat \<Rightarrow> BlueprintNode \<Rightarrow> unit run" where
  "createTextNode host par node =
     (let f = node_fields node in
      andThen (ensureFont host (fontStyle (node_fontWeight f))) (\<lambda>_.
      andThen (createText host) (\<lambda>text.
      andThen (assign host text (PosX (nullish (node_x f) 32))) (\<lambda>_.
      andThen (assign host text (PosY (nullish (node_y f) 32))) (\<lambda>_.
      andThen (resize host text (nullish (node_width f) 520) (nullish (node_height f) 120)) (\<lambda>_.
      andThen (assign host text
                 (Characters ((if truthy (node_title f)
                               then nullish (node_title f) [] @ [CHR 0x0A] else [])
                              @ nullish (node_content f) []))) (\<lambda>_.
      andThen (assign host text (FontSize (nullish (node_fontSize f) 16))) (\<lambda>_.
      andThen (assign host text (FontName ''Inter'' (fontStyle (node_fontWeight f)))) (\<lambda>_.
      andThen (assign host text
                 (Fills [solid (hexToRgb (orString (node_color f) ''#e9edf5''))])) (\<lambda>_.
      appendChild host par text))))))))))"

definition blockHeading :: "Host \<Rightarrow> nat \<Rightarrow> NodeFields \<Rightarrow> unit run" where
  \<comment> \<open>the title and body texts a container synthesizes from its own title and content\<close>
  "blockHeading host container f =
     (if truthy (node_title f) \<or> truthy (node_content f)
      then
        andThen (ensureFont host ''Semi Bold'') (\<lambda>_.
        andThen (createText host) (\<lambda>title.
        andThen (assign host title (Characters (orString (node_title f) []))) (\<lambda>_.
        andThen (assign host title (FontName ''Inter'' ''Semi Bold'')) (\<lambda>_.
        andThen (assign host title (FontSize 15)) (\<lambda>_.
        andThen (assign host title
                   (Fills [solid (hexToRgb (orString (node_color f) ''#e9edf5''))])) (\<lambda>_.
        andThen (appendChild host container title) (\<lambda>_.
        if truthy (node_content f)
        then
          andThen (ensureFont host ''Medium'') (\<lambda>_.
          andThen (createText host) (\<lambda>body.
          andThen (assign host body (Characters (nullish (node_content f) []))) (\<lambda>_.
          andThen (assign host body (FontName ''Inter'' ''Medium'')) (\<lambda>_.
          andThen (assign host body (FontSize 13)) (\<lambda>_.
          andThen (assign host body (Fills [solid (hexToRgb ''#b7c0d1'')])) (\<lambda>_.
          appendChild host container body))))))
        else result ())))))))
      else result ())"

definition blockContainer :: "Host \<Rightarrow> NodeFields \<Rightarrow> nat run" where
  \<comment> \<open>the container of a block node: created, sized, placed and styled, with its heading\<close>
  "blockContainer host f =
     andThen (createFrame host) (\<lambda>container.
     andThen (resize host container (nullish (node_width f) 520) (nullish (node_height f) 220)) (\<lambda>_.
     andThen (assign host container (PosX (nullish (node_x f) 32))) (\<lambda>_.
     andThen (assign host container (PosY (nullish (node_y f) 32))) (\<lambda>_.
     andThen (assign host container (Name (orString (node_title f) ''Block''))) (\<lambda>_.
     andThen (assign host container (CornerRadius (nullish (node_cornerRadius f) 14))) (\<lambda>_.
     andThen (assign host container (LayoutMode ''VERTICAL'')) (\<lambda>_.
     andThen (assign host container (PaddingTop 16)) (\<lambda>_.
     andThen (assign host container (PaddingRight 16)) (\<lambda>_.
     andThen (assign host container (PaddingBottom 16)) (\<lambda>_.
     andThen (assign host container (PaddingLeft 16)) (\<lambda>_.
     andThen (assign host container (ItemSpacing (nullish (node_spacing f) 12))) (\<lambda>_.
     andThen (assign host container
                (Fills [\<lparr> paint_color = hexToRgb (orString (node_fill f) ''#11141b''),
                          paint_opacity = Some 1 \<rparr>])) (\<lambda>_.
     andThen (assign host container
                (Strokes (if truthy (node_stroke f)
                          then [solid (hexToRgb (nullish (node_stroke f) []))]
                          else [solid (hexToRgb ''#1f2633'')]))) (\<lambda>_.
     andThen (blockHeading host container f) (\<lambda>_.
     result container)))))))))))))))"

definition fallbackX :: "nat \<Rightarrow> nat \<Rightarrow> rat" where
  "fallbackX index depth = 40 + of_nat (index mod 2) * 340 + of_nat depth * 16"

definition fallbackY :: "nat \<Rightarrow> rat" where
  "fallbackY index = 120 + of_nat (index div 2) * 220"

definition positioned :: "BlueprintNode \<Rightarrow> nat \<Rightarrow> nat \<Rightarrow> BlueprintNode" where
  \<comment> \<open>the copy of a descriptor that the walker hands to a renderer: x and y filled in\<close>
  "positioned node index depth =
     BlueprintNode
       ((node_fields node)\<lparr>node_x := Some (nullish (node_x (node_fields node)) (fallbackX index depth)),
                      node_y := Some (nullish (node_y (node_fields node)) (fallbackY index))\<rparr>)
       (node_nodes node)"

lemma size_positioned [termination_simp]: "size (positioned node index depth) = size node"
  by (cases node) (simp add: positioned_def)

fun placeFrom :: "Host \<Rightarrow> nat \<Rightarrow> BlueprintNode list \<Rightarrow> nat \<Rightarrow> nat \<Rightarrow> unit run"
  and createBlockNode :: "Host \<Rightarrow> nat \<Rightarrow> BlueprintNode \<Rightarrow> unit run"
where
  "placeFrom host par [] index depth = result ()"
| "placeFrom host par (BlueprintNode f ns # rest) index depth =
     andThen
       (if node_type f = ''text''
        then createTextNode host par (positioned (BlueprintNode f ns) index depth)
        else if node_type f \<in> {''panel'', ''card'', ''callout'', ''list''}
        then createBlockNode host par (positioned (BlueprintNode f ns) index depth)
        else createBlockNode host par (positioned (BlueprintNode f ns) index depth))
       (\<lambda>_. placeFrom host par rest (index + 1) depth)"
| "createBlockNode host par (BlueprintNode f ns) =
     andThen (blockContainer host f) (\<lambda>container.
     andThen (case ns of
                Some (c # cs) \<Rightarrow>
                  placeFrom host container (c # cs) 0 (if 0 < length (c # cs) then 1 else 0)
              | _ \<Rightarrow> result ()) (\<lambda>_.
     appendChild host par container))"

definition placeNodes :: "Host \<Rightarrow> nat \<Rightarrow> BlueprintNode list \<Rightarrow> nat \<Rightarrow> unit run" where
  "placeNodes host par ns depth = placeFrom host par ns 0 depth"

fun digitsOf :: "nat \<Rightarrow> string" where
  "digitsOf n = (if n < 10 then [char_of (48 + n)] else digitsOf (n div 10) @ [char_of (48 + n mod 10)])"

declare digitsOf.simps [simp del]

definition emptyFields :: NodeFields where
  "emptyFields =
     \<lparr> node_type = [], node_title = None, node_content = None, node_x = None, node_y = None,
       node_width = None, node_height = None, node_fontSize = None, node_fontWeight = None,
       node_color = None, node_fill = None, node_stroke = None, node_cornerRadius = None,
       node_spacing = None \<rparr>"

definition frameHeading :: "BlueprintFrame \<Rightarrow> BlueprintNode" where
  "frameHeading framePlan =
     BlueprintNode
       (emptyFields\<lparr> node_type := ''text'', node_title := frame_name framePlan,
                     node_content := frame_description framePlan, node_x := Some 40,
                     node_y := Some 32, node_fontSize := Some 18,
                     node_fontWeight := Some ''semi-bold'', node_color := Some ''#e5e7eb'' \<rparr>)
       None"

fun renderFrames :: "Host \<Rightarrow> BlueprintFrame list \<Rightarrow> rat \<Rightarrow> nat list \<Rightarrow> nat list run" where
  "renderFrames host [] offsetX created = result created"
| "renderFrames host (framePlan # rest) offsetX created =
     andThen (createFrame host) (\<lambda>frame.
     andThen (assign host frame (Name (orString (frame_name framePlan) ''Gemini Frame''))) (\<lambda>_.
     let w = orNumber (frame_width framePlan) 1440;
         h = orNumber (frame_height framePlan) 1024 in
     andThen (resize host frame w h) (\<lambda>_.
     andThen (assign host frame (PosX offsetX)) (\<lambda>_.
     andThen (\<lambda>s. assign host frame (PosY (snd (viewportCenter s) - h / 2)) s) (\<lambda>_.
     andThen (assign host frame
                (Fills [solid (hexToRgb (orString (frame_background framePlan) ''#0b0d11''))])) (\<lambda>_.
     andThen (if truthy (frame_description framePlan)
              then createTextNode host frame (frameHeading framePlan)
              else result ()) (\<lambda>_.
     andThen (placeNodes host frame (nullish (frame_nodes framePlan) []) 0) (\<lambda>_.
     renderFrames host rest (offsetX + w + 120) (created @ [frame])))))))))"

definition completionNotice :: "nat \<Rightarrow> GenerationMode \<Rightarrow> string" where
  "completionNotice n mode =
     ''Gotovo: '' @ digitsOf n @ '' '' @ (if mode = Screen then ''ekrana'' else ''artefaktov'')
       @ '' dobavleno.''"

definition renderBlueprint :: "Host \<Rightarrow> GeminiBlueprint \<Rightarrow> GenerationMode \<Rightarrow> nat list run" where
  "renderBlueprint host blueprint mode s =
     (case frames blueprint of
        None \<Rightarrow> (Inl (Error ''blueprint.frames is not iterable''), s)
      | Some plans \<Rightarrow>
          andThen (renderFrames host plans (fst (viewportCenter s) - 100) []) (\<lambda>created.
          andThen (notify host (completionNotice (length created) mode)) (\<lambda>_.
          result created)) s)"

fun descendants :: "SceneNode list \<Rightarrow> nat \<Rightarrow> nat \<Rightarrow> nat list" where
  "descendants sc 0 i = []"
| "descendants sc (Suc fuel) i =
     (if i < length sc
      then concat (map (\<lambda>c. c # descendants sc fuel c) (children (sc ! i)))
      else [])"

definition descendantsOf :: "Session \<Rightarrow> nat \<Rightarrow> nat list" where
  "descendantsOf s i = descendants (scene s) (length (scene s)) i"

section \<open>Generation flow\<close>

datatype Tone = Info | ErrorTone

datatype BusyState = Idle | Busy

datatype UiMessage =
    ApiKeyLoaded string | ApiKeySaved | Status string Tone BusyState
  | GenerationComplete | GenerationError string

datatype FrameCount = Missing | Count rat | NotANumber

record Params =
  param_prompt :: string
  param_mode :: GenerationMode
  param_frameCount :: FrameCount
  param_apiKeyOverride :: "string option"

datatype Payload = NoParts | Parts "string option list" | Unreadable thrown

record Response =
  resp_ok :: bool
  resp_status :: nat
  resp_text :: "thrown + string"
  resp_json :: "thrown + Payload"

text \<open>
  The remote service, the key store and the language runtime are collaborators too: what a
  request returns, whether the key store answers, how the runtime parses JSON and prints a
  number are parameters.
\<close>

record Platform =
  fetch :: "string \<Rightarrow> string \<Rightarrow> thrown + Response"
  storageRejects :: "thrown option"
  jsonParse :: "string \<Rightarrow> thrown + GeminiBlueprint option"
  numberToString :: "rat \<Rightarrow> string"

record Plugin =
  session :: Session
  posted :: "UiMessage list"
  requests :: "(string \<times> string) list"
  storedKey :: "string option"

type_synonym 'a flow = "Plugin \<Rightarrow> (thrown + 'a) \<times> Plugin"

definition DEFAULT_ACCENT :: string where
  "DEFAULT_ACCENT = ''#6de1d6''"

definition postMessage :: "UiMessage \<Rightarrow> Plugin \<Rightarrow> Plugin" where
  "postMessage m w = w\<lparr>posted := posted w @ [m]\<rparr>"

definition notifyUI :: "string \<Rightarrow> Tone \<Rightarrow> BusyState \<Rightarrow> Plugin \<Rightarrow> Plugin" where
  "notifyUI txt tone state w = postMessage (Status txt tone state) w"

definition inSession :: "'a run \<Rightarrow> 'a flow" where
  \<comment> \<open>a run of the renderer, inside the plugin's state\<close>
  "inSession m w = (case m (session w) of (res, s') \<Rightarrow> (res, w\<lparr>session := s'\<rparr>))"

fun recover :: "(thrown + 'a) \<times> 's \<Rightarrow> (thrown \<Rightarrow> 's \<Rightarrow> (thrown + 'a) \<times> 's) \<Rightarrow> (thrown + 'a) \<times> 's" where
  "recover (Inl e, s) handler = handler e s"
| "recover (Inr a, s) handler = (Inr a, s)"

definition tryCatch :: "('s \<Rightarrow> (thrown + 'a) \<times> 's) \<Rightarrow> (thrown \<Rightarrow> 's \<Rightarrow> (thrown + 'a) \<times> 's) \<Rightarrow> 's \<Rightarrow> (thrown + 'a) \<times> 's" where
  "tryCatch body handler s = recover (body s) handler"

definition throw :: "thrown \<Rightarrow> 's \<Rightarrow> (thrown + 'a) \<times> 's" where
  "throw e s = (Inl e, s)"

text \<open>The texts shown to the user are Cyrillic in the source; they are transliterated here.\<close>

definition msgEnterPrompt :: string where
  "msgEnterPrompt = ''Vvedite tekstovoe opisanie dlya generatsii.''"

definition msgPreparing :: string where
  "msgPreparing = ''Gotovim zapros dlya Gemini 3 Pro...''"

definition msgNeedKey :: string where
  "msgNeedKey = ''Ukazhite Gemini API key pered generatsiei.''"

definition msgEmptyAnswer :: string where
  "msgEmptyAnswer = ''Gemini vernul pustoi otvet. Poprobuite utochnit zapros.''"

definition msgDrawing :: string where
  "msgDrawing = ''Risuem freimy v temnoi teme...''"

definition msgCallFailed :: string where
  "msgCallFailed = ''Ne udalos vyzvat Gemini API.''"

definition msgCannotParse :: string where
  "msgCannotParse = ''Ne udalos razobrat otvet Gemini. Proverte klyuch i zapros.''"

definition unlines :: "string list \<Rightarrow> string" where
  \<comment> \<open>the lines joined by line feeds\<close>
  "unlines ls = (case ls of [] \<Rightarrow> [] | l # rest \<Rightarrow> l @ concat (map (\<lambda>x. CHR 0x0A # x) rest))"

definition modeName :: "GenerationMode \<Rightarrow> string" where
  "modeName m = (case m of Screen \<Rightarrow> ''screen'' | UserFlow \<Rightarrow> ''user-flow''
     | Personas \<Rightarrow> ''personas'' | Architecture \<Rightarrow> ''architecture''
     | Storyboard \<Rightarrow> ''storyboard'')"

definition modeSpec :: "GenerationMode \<Rightarrow> string" where
  "modeSpec m = (case m of
       Screen \<Rightarrow> ''Design application screens with hero section, navigation, cards, and CTAs. Keep spacing tight and copy concise.''
     | UserFlow \<Rightarrow> ''Describe the journey as sequential swimlanes. Each card is a step with title, goal, and next action.''
     | Personas \<Rightarrow> ''Provide 2-3 personas per frame with name, role, goals, pain points, tools. Use list nodes.''
     | Architecture \<Rightarrow> ''Map subsystems and data flows. Use cards and callouts to describe responsibilities and integration touchpoints.''
     | Storyboard \<Rightarrow> ''Lay out storyboard beats. Each card has scene title, what user sees, and emotion.'')"

definition schemaText :: "string \<Rightarrow> string" where
  \<open>schemaText count =
     unlines
       [[],
        ''Return JSON with key "frames" (array length '' @ count @ '') using this shape:'',
        ''{'',
        ''  "frames": ['',
        ''    {'',
        ''      "name": "Concise frame title",'',
        ''      "description": "Short goal of this artifact",'',
        ''      "width": 1440,'',
        ''      "height": 1024,'',
        ''      "background": "#0b0d11",'',
        ''      "nodes": ['',
        ''        {'',
        ''          "type": "text" | "panel" | "card" | "list" | "callout",'',
        ''          "title": "Heading text",'',
        ''          "content": "Body copy or bullet list. Keep copy short.",'',
        ''          "x": 48,'',
        ''          "y": 48,'',
        ''          "width": 420,'',
        ''          "height": 120,'',
        ''          "fontSize": 15,'',
        ''          "fontWeight": "regular" | "medium" | "semi-bold" | "bold",'',
        ''          "color": "#e9edf5",'',
        ''          "fill": "#11141b",'',
        ''          "cornerRadius": 16,'',
        ''          "spacing": 12,'',
        ''          "nodes": [] // optional nested items for structure'',
        ''        }'',
        ''      ]'',
        ''    }'',
        ''  ]'',
        ''}'']\<close>

definition buildPrompt :: "Platform \<Rightarrow> string \<Rightarrow> GenerationMode \<Rightarrow> rat \<Rightarrow> string" where
  \<open>buildPrompt pf userPrompt m frameCount =
     unlines
       [''You are a Figma design planner. Reply with ONLY JSON (no markdown, no prose) following the schema. Use a modern dark UI palette (#0b0d11 background, #11141b surfaces, accent '' @ DEFAULT_ACCENT @ ''). Keep copy succinct. Avoid emojis.'',
        [],
        ''User intent: '' @ userPrompt,
        ''Mode: '' @ modeName m @ '' ('' @ modeSpec m @ '')'',
        ''Frames requested: '' @ numberToString pf frameCount,
        [],
        schemaText (numberToString pf frameCount)]\<close>

definition combinedText :: "string option list \<Rightarrow> string" where
  \<comment> \<open>the text parts joined; a part without text counts as empty\<close>
  "combinedText ps = concat (map (\<lambda>p. orString p []) ps)"

definition callGemini :: "Platform \<Rightarrow> string \<Rightarrow> string \<Rightarrow> GeminiBlueprint option flow" where
  "callGemini pf apiKey prompt w =
     (let w1 = w\<lparr>requests := requests w @ [(apiKey, prompt)]\<rparr>
      in case fetch pf apiKey prompt of
           Inl e \<Rightarrow> (Inl e, w1)
         | Inr response \<Rightarrow>
             if \<not> resp_ok response
             then (case resp_text response of
                     Inl e \<Rightarrow> (Inl e, w1)
                   | Inr body \<Rightarrow>
                       (Inl (Error (''Gemini API error '' @ digitsOf (resp_status response)
                                      @ '': '' @ body)), w1))
             else (case resp_json response of
                     Inl e \<Rightarrow> (Inl e, w1)
                   | Inr (Unreadable e) \<Rightarrow> (Inl e, w1)
                   | Inr payload \<Rightarrow>
                       (let combined = (case payload of Parts ps \<Rightarrow> combinedText ps | _ \<Rightarrow> [])
                        in case extractJson combined of
                             None \<Rightarrow> (Inl (Error msgCannotParse), w1)
                           | Some jsonText \<Rightarrow>
                               if jsonText = [] then (Inl (Error msgCannotParse), w1)
                               else (case jsonParse pf jsonText of
                                       Inl e \<Rightarrow> (Inl e, w1)
                                     | Inr blueprint \<Rightarrow> (Inr blueprint, w1)))))"

definition requestedFrames :: "FrameCount \<Rightarrow> rat" where
  \<comment> \<open>\<^verbatim>\<open>params.frameCount || 3\<close>\<close>
  "requestedFrames fc = (case fc of Count v \<Rightarrow> (if v = 0 then 3 else v) | _ \<Rightarrow> 3)"

definition hasFrames :: "GeminiBlueprint option \<Rightarrow> bool" where
  \<comment> \<open>\<^verbatim>\<open>blueprint?.frames?.length\<close> is truthy\<close>
  "hasFrames blueprint =
     (case blueprint of
        None \<Rightarrow> False
      | Some bp \<Rightarrow> (case frames bp of None \<Rightarrow> False | Some fs \<Rightarrow> fs \<noteq> []))"

definition generationAttempt :: "Host \<Rightarrow> Platform \<Rightarrow> Params \<Rightarrow> string \<Rightarrow> unit flow" where
  \<comment> \<open>the body of the try block\<close>
  "generationAttempt host pf params apiKey =
     andThen (callGemini pf apiKey
                (buildPrompt pf (param_prompt params) (param_mode params)
                   (requestedFrames (param_frameCount params)))) (\<lambda>blueprint.
     if \<not> hasFrames blueprint then throw (Error msgEmptyAnswer)
     else
       andThen (\<lambda>w. (Inr (), notifyUI msgDrawing Info Busy w)) (\<lambda>_.
       andThen (inSession (renderBlueprint host
                             (case blueprint of Some bp \<Rightarrow> bp | None \<Rightarrow> \<lparr>frames = None\<rparr>)
                             (param_mode params))) (\<lambda>createdFrames.
       andThen (inSession (select host createdFrames)) (\<lambda>_.
       andThen (inSession (scrollAndZoomIntoView host createdFrames)) (\<lambda>_.
       (\<lambda>w. (Inr (), postMessage GenerationComplete w)))))))"

definition errorText :: "thrown \<Rightarrow> string" where
  \<comment> \<open>\<^verbatim>\<open>error instanceof Error ? error.message : ...\<close>\<close>
  "errorText e = (case e of Error m \<Rightarrow> m | NonError \<Rightarrow> msgCallFailed)"

definition resolveApiKey :: "Platform \<Rightarrow> Params \<Rightarrow> string option flow" where
  \<comment> \<open>\<^verbatim>\<open>params.apiKeyOverride?.trim() || await figma.clientStorage.getAsync(...)\<close>\<close>
  "resolveApiKey pf params w =
     (if truthy (map_option trim (param_apiKeyOverride params))
      then (Inr (map_option trim (param_apiKeyOverride params)), w)
      else (case storageRejects pf of
              Some e \<Rightarrow> (Inl e, w)
            | None \<Rightarrow> (Inr (storedKey w), w)))"

definition generateDesign :: "Host \<Rightarrow> Platform \<Rightarrow> Params \<Rightarrow> unit flow" where
  "generateDesign host pf params w =
     (if param_prompt params = [] then (Inr (), notifyUI msgEnterPrompt ErrorTone Idle w)
      else
        andThen (resolveApiKey pf params) (\<lambda>apiKey w2.
          if \<not> truthy apiKey then (Inr (), notifyUI msgNeedKey ErrorTone Idle w2)
          else tryCatch (generationAttempt host pf params (nullish apiKey []))
                 (\<lambda>e w3. (Inr (), postMessage (GenerationError (errorText e)) w3)) w2)
          (notifyUI msgPreparing Info Busy w))"

section \<open>Vocabulary of the properties\<close>

subsection \<open>A host that accepts every call\<close>

text \<open>
  Most properties of the renderers are about what they build when the editor rejects
  nothing. \<open>withFont\<close> is the session after a font was ensured,
  \<open>textSceneNode\<close> the scene node a text descriptor becomes, \<open>frameShell\<close> the
  scene node of a frame before anything is placed in it, and \<open>headingCount\<close> the
  number of heading texts a container synthesizes.
\<close>

definition accepts :: "Host \<Rightarrow> bool" where
  "accepts host \<longleftrightarrow> (\<forall>s c. rejects host s c = None)"

definition withFont :: "string \<Rightarrow> Session \<Rightarrow> Session" where
  "withFont style s =
     (if ''Inter-'' @ style \<in> set (loadedFonts s) then s
      else s\<lparr>fontLoads := fontLoads s @ [(''Inter'', style)],
             loadedFonts := setAdd (''Inter-'' @ style) (loadedFonts s)\<rparr>)"

definition textSceneNode :: "nat \<Rightarrow> NodeFields \<Rightarrow> SceneNode" where
  "textSceneNode par f =
     (freshNode TEXT)\<lparr> parent := Some par,
       posX := nullish (node_x f) 32, posY := nullish (node_y f) 32,
       width := nullish (node_width f) 520, height := nullish (node_height f) 120,
       characters := (if truthy (node_title f) then nullish (node_title f) [] @ [CHR 0x0A] else [])
                     @ nullish (node_content f) [],
       fontSize := nullish (node_fontSize f) 16,
       fontName := (''Inter'', fontStyle (node_fontWeight f)),
       fills := [solid (hexToRgb (orString (node_color f) ''#e9edf5''))] \<rparr>"

definition frameShell :: "BlueprintFrame \<Rightarrow> rat \<Rightarrow> rat \<Rightarrow> SceneNode" where
  "frameShell framePlan offsetX centerY =
     (freshNode FRAME)\<lparr> name := orString (frame_name framePlan) ''Gemini Frame'',
       width := orNumber (frame_width framePlan) 1440,
       height := orNumber (frame_height framePlan) 1024,
       posX := offsetX,
       posY := centerY - orNumber (frame_height framePlan) 1024 / 2,
       fills := [solid (hexToRgb (orString (frame_background framePlan) ''#0b0d11''))] \<rparr>"

definition headingCount :: "NodeFields \<Rightarrow> nat" where
  "headingCount f =
     (if truthy (node_title f) \<or> truthy (node_content f) then 1 else 0)
     + (if truthy (node_content f) then 1 else 0)"

definition childList :: "BlueprintNode \<Rightarrow> BlueprintNode list" where
  "childList node = (case node_nodes node of Some l \<Rightarrow> l | None \<Rightarrow> [])"

subsection \<open>What a walk adds to the scene\<close>

text \<open>
  \<open>grows par ids s s'\<close>: from \<open>s\<close> to \<open>s'\<close> the scene only gained nodes,
  the nodes it had are unchanged except the parent \<open>par\<close>, and \<open>par\<close> only
  gained the children \<open>ids\<close>, in that order. \<open>placedAs n index depth sn\<close>: the
  scene node \<open>sn\<close> has the kind and the position of the descriptor \<open>n\<close> walked
  at that sibling index and depth; a text has no children. \<open>placeOk\<close> and
  \<open>blockOk\<close> say that the walker and the block renderer return normally and
  describe the nodes they added.
\<close>

definition grows :: "nat \<Rightarrow> nat list \<Rightarrow> Session \<Rightarrow> Session \<Rightarrow> bool" where
  "grows par ids s s' \<longleftrightarrow>
     length (scene s) \<le> length (scene s') \<and>
     (\<forall>i<length (scene s). i \<noteq> par \<longrightarrow> scene s' ! i = scene s ! i) \<and>
     scene s' ! par = (scene s ! par)\<lparr>children := children (scene s ! par) @ ids\<rparr>"

definition placedAs :: "BlueprintNode \<Rightarrow> nat \<Rightarrow> nat \<Rightarrow> SceneNode \<Rightarrow> bool" where
  "placedAs n index depth sn \<longleftrightarrow>
     posX sn = nullish (node_x (node_fields n)) (fallbackX index depth) \<and>
     posY sn = nullish (node_y (node_fields n)) (fallbackY index) \<and>
     kind sn = (if node_type (node_fields n) = ''text'' then TEXT else FRAME) \<and>
     (node_type (node_fields n) = ''text'' \<longrightarrow> children sn = [])"

definition placeOk :: "Host \<Rightarrow> nat \<Rightarrow> BlueprintNode list \<Rightarrow> nat \<Rightarrow> nat \<Rightarrow> Session \<Rightarrow> bool" where
  "placeOk host par ns index depth s \<longleftrightarrow>
     (\<exists>s' ids. placeFrom host par ns index depth s = (Inr (), s') \<and> grows par ids s s' \<and>
        length ids = length ns \<and>
        (\<forall>j<length ns. length (scene s) \<le> ids ! j \<and> ids ! j < length (scene s') \<and>
            placedAs (ns ! j) (index + j) depth (scene s' ! (ids ! j))))"

definition blockOk :: "Host \<Rightarrow> nat \<Rightarrow> BlueprintNode \<Rightarrow> Session \<Rightarrow> bool" where
  "blockOk host par node s \<longleftrightarrow>
     (\<exists>s' hd kids. createBlockNode host par node s = (Inr (), s') \<and>
        grows par [length (scene s)] s s' \<and> length (scene s) < length (scene s') \<and>
        kind (scene s' ! length (scene s)) = FRAME \<and>
        posX (scene s' ! length (scene s)) = nullish (node_x (node_fields node)) 32 \<and>
        posY (scene s' ! length (scene s)) = nullish (node_y (node_fields node)) 32 \<and>
        children (scene s' ! length (scene s)) = hd @ kids \<and>
        length hd = headingCount (node_fields node) \<and>
        (\<forall>h\<in>set hd. length (scene s) < h \<and> h < length (scene s') \<and>
            kind (scene s' ! h) = TEXT \<and> children (scene s' ! h) = []) \<and>
        length kids = length (childList node) \<and>
        (\<forall>j<length kids. length (scene s) < kids ! j \<and> kids ! j < length (scene s') \<and>
            placedAs (childList node ! j) j 1 (scene s' ! (kids ! j))))"

subsection \<open>Sample inputs\<close>

definition accepting :: Host where
  "accepting = \<lparr> rejects = (\<lambda>s c. None), centerAfterZoom = (\<lambda>s ids. viewportCenter s) \<rparr>"

definition fontless :: Host where
  "fontless = \<lparr> rejects = (\<lambda>s c. case c of LoadFontAsync family style \<Rightarrow> Some (Error ''font unavailable'')
                                      | _ \<Rightarrow> None),
                 centerAfterZoom = (\<lambda>s ids. viewportCenter s) \<rparr>"

definition emptySession :: Session where
  "emptySession = \<lparr> scene = [], page = [], loadedFonts = [], fontLoads = [], notices = [],
     selection = [], viewportCenter = (0, 0) \<rparr>"

definition frameSession :: Session where
  "frameSession = emptySession\<lparr>scene := [freshNode FRAME], page := [0]\<rparr>"

definition textNode :: BlueprintNode where
  "textNode = BlueprintNode (emptyFields\<lparr>node_type := ''text''\<rparr>) None"

definition cardNode :: BlueprintNode where
  "cardNode = BlueprintNode (emptyFields\<lparr>node_type := ''card''\<rparr>) (Some [textNode, textNode])"


definition weightedText :: "string \<Rightarrow> BlueprintNode" where
  "weightedText w = BlueprintNode (emptyFields\<lparr>node_type := ''text'', node_fontWeight := Some w\<rparr>) None"

definition nestedCard :: BlueprintNode where
  "nestedCard = BlueprintNode (emptyFields\<lparr>node_type := ''card''\<rparr>)
                  (Some [BlueprintNode (emptyFields\<lparr>node_type := ''card''\<rparr>) (Some [textNode])])"

definition sampleFrame :: BlueprintFrame where
  "sampleFrame = \<lparr> frame_name = Some ''Home'', frame_description = None,
     frame_width = None, frame_height = None, frame_background = None,
     frame_nodes = Some [textNode, cardNode] \<rparr>"

definition sampleBlueprint :: GeminiBlueprint where
  "sampleBlueprint = \<lparr> frames = Some [\<lparr> frame_name = Some ''Home'', frame_description = None,
     frame_width = None, frame_height = None, frame_background = None,
     frame_nodes = Some [textNode, cardNode] \<rparr>] \<rparr>"

definition nestedBlueprint :: GeminiBlueprint where
  "nestedBlueprint = \<lparr> frames = Some [\<lparr> frame_name = Some ''Home'', frame_description = None,
     frame_width = None, frame_height = None, frame_background = None,
     frame_nodes = Some [nestedCard] \<rparr>] \<rparr>"

subsection \<open>Font requests\<close>

text \<open>A sequence of font-ensuring calls, one per weight token, as the text renderer makes
  them: each token is mapped to its style and the style is ensured. The cache is
  consistent when the log of loads has no duplicate and holds exactly the cached styles.\<close>

fun ensureFonts :: "Host \<Rightarrow> string option list \<Rightarrow> unit run" where
  "ensureFonts host [] = result ()"
| "ensureFonts host (w # ws) =
     andThen (ensureFont host (fontStyle w)) (\<lambda>_. ensureFonts host ws)"

definition cacheConsistent :: "Session \<Rightarrow> bool" where
  "cacheConsistent s \<longleftrightarrow>
     distinct (fontLoads s) \<and>
     set (fontLoads s) = (\<lambda>style. (''Inter'', style)) ` {style. ''Inter-'' @ style \<in> set (loadedFonts s)}"

subsection \<open>Traffic of the generation flow\<close>

text \<open>
  \<open>preparing w\<close> is the plugin state after the busy status that opens an attempt;
  \<open>afterBlueprint\<close> is the part of the attempt that follows the remote call;
  \<open>generationErrors\<close> are the generation-error messages among those posted to the
  panel. The sample platforms answer every request the same way: \<open>offline\<close> fails
  to connect, \<open>answering blueprint\<close> returns a reply that parses to the given
  blueprint.
\<close>

definition preparing :: "Plugin \<Rightarrow> Plugin" where
  "preparing w = notifyUI msgPreparing Info Busy w"

definition afterBlueprint :: "Host \<Rightarrow> Params \<Rightarrow> GeminiBlueprint option \<Rightarrow> unit flow" where
  "afterBlueprint host params blueprint =
     (if \<not> hasFrames blueprint then throw (Error msgEmptyAnswer)
     else
       andThen (\<lambda>w. (Inr (), notifyUI msgDrawing Info Busy w)) (\<lambda>_.
       andThen (inSession (renderBlueprint host
                             (case blueprint of Some bp \<Rightarrow> bp | None \<Rightarrow> \<lparr>frames = None\<rparr>)
                             (param_mode params))) (\<lambda>createdFrames.
       andThen (inSession (select host createdFrames)) (\<lambda>_.
       andThen (inSession (scrollAndZoomIntoView host createdFrames)) (\<lambda>_.
       (\<lambda>w. (Inr (), postMessage GenerationComplete w)))))))"

definition generationErrors :: "UiMessage list \<Rightarrow> UiMessage list" where
  "generationErrors ms = filter (\<lambda>m. case m of GenerationError _ \<Rightarrow> True | _ \<Rightarrow> False) ms"

definition quiet :: "Plugin \<Rightarrow> Plugin \<Rightarrow> bool" where
  \<comment> \<open>nothing was requested from the remote service and no generation error was posted\<close>
  "quiet w w' \<longleftrightarrow>
     requests w' = requests w \<and> generationErrors (posted w') = generationErrors (posted w)"

definition decimal :: "rat \<Rightarrow> string" where
  \<comment> \<open>a sample number printer: the decimal digits of a whole, non-negative number\<close>
  "decimal v = digitsOf (nat \<lfloor>v\<rfloor>)"

definition sampleParams :: Params where
  "sampleParams = \<lparr> param_prompt = ''landing page'', param_mode = Screen,
     param_frameCount = Missing, param_apiKeyOverride = Some '' key-123 '' \<rparr>"

definition freshPlugin :: Plugin where
  "freshPlugin = \<lparr> session = emptySession, posted = [], requests = [], storedKey = None \<rparr>"

definition offline :: Platform where
  "offline = \<lparr> fetch = (\<lambda>k p. Inl (Error ''Failed to fetch'')), storageRejects = None,
     jsonParse = (\<lambda>t. Inl (Error ''Unexpected token'')), numberToString = decimal \<rparr>"

definition storageDown :: Platform where
  \<comment> \<open>a platform whose key store rejects every read\<close>
  "storageDown = offline\<lparr> storageRejects := Some (Error ''storage down'') \<rparr>"

definition noOverride :: Params where
  \<comment> \<open>the sample request without a key typed into the form\<close>
  "noOverride = sampleParams\<lparr> param_apiKeyOverride := None \<rparr>"

definition answering :: "GeminiBlueprint option \<Rightarrow> Platform" where
  \<open>answering blueprint =
     \<lparr> fetch = (\<lambda>k p. Inr \<lparr> resp_ok = True, resp_status = 200, resp_text = Inr [],
                             resp_json = Inr (Parts [Some ''{"frames":'', None, Some ''[]}'']) \<rparr>),
       storageRejects = None, jsonParse = (\<lambda>t. Inr blueprint), numberToString = decimal \<rparr>\<close>

section \<open>Properties\<close>

subsection \<open>Color codec\<close>

lemma hexToRgb_abc:
  "hexToRgb ''abc'' = \<lparr> r = 171 / 255, g = 202 / 255, b = 188 / 255 \<rparr>"
  by (simp add: hexToRgb_def trim_def replaceFirstChar_def repeat2_def isWhiteSpace_def
      parseInt16_def hexDigit_def hexValue_def roundToDouble_def toInt32_def channel_def)

lemma hexToRgb_aabbcc:
  "hexToRgb ''aabbcc'' = \<lparr> r = 170 / 255, g = 187 / 255, b = 204 / 255 \<rparr>"
  by (simp add: hexToRgb_def trim_def replaceFirstChar_def repeat2_def isWhiteSpace_def
      parseInt16_def hexDigit_def hexValue_def roundToDouble_def toInt32_def channel_def)

text \<open>
  C1. A 3-digit color is meant to give the same triple as the 6-digit color with every
  digit doubled in place, so that \<open>abc\<close> reads as \<open>aabbcc\<close>. The codec instead
  repeats the whole 3-digit string: \<open>abc\<close> is parsed as \<open>abcabc\<close> and gives
  (171, 202, 188) / 255, where \<open>aabbcc\<close> gives (170, 187, 204) / 255.
\<close>

theorem hexToRgb_short_form_differs:
  "expandDigits ''abc'' = ''aabbcc'' \<and>
   hexToRgb ''abc'' = \<lparr> r = 171 / 255, g = 202 / 255, b = 188 / 255 \<rparr> \<and>
   hexToRgb (expandDigits ''abc'') = \<lparr> r = 170 / 255, g = 187 / 255, b = 204 / 255 \<rparr> \<and>
   hexToRgb ''abc'' \<noteq> hexToRgb (expandDigits ''abc'')"
  by (simp add: hexToRgb_abc hexToRgb_aabbcc expandDigits_def)

subsection \<open>Response extractor\<close>

lemma lazyUntilFence_sound:
  "lazyUntilFence s = Some inner \<Longrightarrow> \<exists>post. s = inner @ ''```'' @ post"
proof (induction s arbitrary: inner)
  case Nil
  then show ?case by simp
next
  case (Cons c cs)
  show ?case
  proof (cases "take 3 (c # cs) = ''```''")
    case True
    with Cons.prems have "inner = []" by simp
    moreover have "c # cs = take 3 (c # cs) @ drop 3 (c # cs)" by (simp only: append_take_drop_id)
    ultimately show ?thesis using True by (metis append_Nil)
  next
    case False
    with Cons.prems obtain rest where r: "lazyUntilFence cs = Some rest" "inner = c # rest"
      by auto
    from Cons.IH [OF r(1)] obtain post where "cs = rest @ ''```'' @ post" by blast
    with r(2) show ?thesis by auto
  qed
qed

lemma lazyUntilFence_complete:
  "lazyUntilFence (inner @ ''```'' @ post) \<noteq> None"
  by (induction inner) auto

lemma fenceMatch_sound:
  "fenceMatch text = Some inner \<Longrightarrow> \<exists>pre post. text = pre @ ''```json'' @ inner @ ''```'' @ post"
proof (induction "text")
  case Nil
  then show ?case by simp
next
  case (Cons c cs)
  show ?case
  proof (cases "take 7 (c # cs) = ''```json'' \<and> lazyUntilFence (drop 7 (c # cs)) \<noteq> None")
    case True
    then obtain g where g: "lazyUntilFence (drop 7 (c # cs)) = Some g" by auto
    with True Cons.prems have "g = inner" by simp
    with g obtain post where "drop 7 (c # cs) = inner @ ''```'' @ post"
      using lazyUntilFence_sound by blast
    moreover have "c # cs = take 7 (c # cs) @ drop 7 (c # cs)" by (simp only: append_take_drop_id)
    ultimately have "c # cs = [] @ ''```json'' @ inner @ ''```'' @ post" using True by simp
    then show ?thesis by blast
  next
    case False
    with Cons.prems have "fenceMatch cs = Some inner" by (auto split: if_splits option.splits)
    from Cons.IH [OF this] obtain pre post where "cs = pre @ ''```json'' @ inner @ ''```'' @ post"
      by blast
    then have "c # cs = (c # pre) @ ''```json'' @ inner @ ''```'' @ post" by simp
    then show ?thesis by blast
  qed
qed

lemma fenceMatch_complete:
  "fenceMatch (pre @ ''```json'' @ inner @ ''```'' @ post) \<noteq> None"
proof (induction pre)
  case Nil
  have "lazyUntilFence (inner @ ''```'' @ post) \<noteq> None" by (rule lazyUntilFence_complete)
  then show ?case by auto
next
  case (Cons c pre)
  then show ?case by (auto split: option.splits)
qed

lemma hasJsonFence_iff: "hasJsonFence text \<longleftrightarrow> (\<exists>inner. fenceMatch text = Some inner)"
  unfolding hasJsonFence_def using fenceMatch_sound fenceMatch_complete
  by (metis not_None_eq)

lemma indexFrom_absent: "c \<notin> set s \<Longrightarrow> indexFrom c s i = - 1"
  by (induction s arbitrary: i) auto

lemma indexFrom_present:
  "c \<in> set s \<Longrightarrow> indexFrom c s i = int (i + length (takeWhile (\<lambda>d. d \<noteq> c) s))"
  by (induction s arbitrary: i) auto

lemma lastIndexFrom_absent: "c \<notin> set s \<Longrightarrow> lastIndexFrom c s i found = found"
  by (induction s arbitrary: i found) auto

lemma lastIndexFrom_append:
  "lastIndexFrom c (xs @ ys) i found = lastIndexFrom c ys (i + length xs) (lastIndexFrom c xs i found)"
  by (induction xs arbitrary: i found) auto

lemma indexFrom_first: "c \<notin> set a \<Longrightarrow> indexFrom c (a @ c # rest) i = int (i + length a)"
  by (induction a arbitrary: i) auto

lemma indexOf_first: "c \<notin> set a \<Longrightarrow> indexOf (a @ c # rest) c = int (length a)"
  by (simp add: indexOf_def indexFrom_first)

lemma indexOf_absent: "c \<notin> set s \<Longrightarrow> indexOf s c = - 1"
  by (simp add: indexOf_def indexFrom_absent)

lemma lastIndexOf_last: "c \<notin> set z \<Longrightarrow> lastIndexOf (y @ c # z) c = int (length y)"
  by (simp add: lastIndexOf_def lastIndexFrom_append lastIndexFrom_absent)

lemma lastIndexOf_absent: "c \<notin> set s \<Longrightarrow> lastIndexOf s c = - 1"
  by (simp add: lastIndexOf_def lastIndexFrom_absent)

lemma sliceString_middle:
  "sliceString (a @ m @ z) (int (length a)) (int (length a + length m)) = m"
  by (simp add: sliceString_def Let_def)

lemma braceSlice_None_absent:
  assumes "CHR ''{'' \<notin> set t \<or> CHR ''}'' \<notin> set t"
  shows "braceSlice t = None"
  using assms
  by (auto simp: braceSlice_def Let_def indexOf_absent lastIndexOf_absent)

lemma braceSlice_split:
  assumes a: "CHR ''{'' \<notin> set a" and z: "CHR ''}'' \<notin> set z"
  shows "braceSlice (a @ ''{'' @ m @ ''}'' @ z) = Some (''{'' @ m @ ''}'')"
proof -
  have i: "indexOf (a @ ''{'' @ m @ ''}'' @ z) CHR ''{'' = int (length a)"
    using indexOf_first [OF a] by simp
  have "lastIndexOf ((a @ ''{'' @ m) @ CHR ''}'' # z) CHR ''}'' = int (length (a @ ''{'' @ m))"
    by (rule lastIndexOf_last [OF z])
  then have l: "lastIndexOf (a @ ''{'' @ m @ ''}'' @ z) CHR ''}'' = int (length a + 1 + length m)"
    by simp
  have "sliceString (a @ (''{'' @ m @ ''}'') @ z) (int (length a))
          (int (length a + length (''{'' @ m @ ''}''))) = ''{'' @ m @ ''}''"
    by (rule sliceString_middle)
  then have s: "sliceString (a @ ''{'' @ m @ ''}'' @ z) (int (length a))
          (int (length a + 1 + length m) + 1) = ''{'' @ m @ ''}''"
    by (simp add: add.commute add.left_commute)
  show ?thesis
    unfolding braceSlice_def Let_def i l using s by simp
qed

lemma braceSlice_reversed:
  assumes a: "CHR ''{'' \<notin> set a" and z: "CHR ''}'' \<notin> set z"
    and eq: "t = a @ CHR ''{'' # rest" "t = y @ CHR ''}'' # z"
    and le: "length y \<le> length a"
  shows "braceSlice t = None"
proof -
  have "indexOf t CHR ''{'' = int (length a)" unfolding eq(1) by (rule indexOf_first [OF a])
  moreover have "lastIndexOf t CHR ''}'' = int (length y)"
    unfolding eq(2) by (rule lastIndexOf_last [OF z])
  ultimately show ?thesis using le by (simp add: braceSlice_def Let_def)
qed

lemma braceSlice_spec: "braceDelimited t (braceSlice t)"
proof (cases "CHR ''{'' \<in> set t \<and> CHR ''}'' \<in> set t")
  case False
  then have n: "braceSlice t = None" by (intro braceSlice_None_absent) blast
  have "\<not> (\<exists>a m z. t = a @ ''{'' @ m @ ''}'' @ z)"
  proof
    assume "\<exists>a m z. t = a @ ''{'' @ m @ ''}'' @ z"
    then obtain a m z where "t = a @ ''{'' @ m @ ''}'' @ z" by blast
    then have "CHR ''{'' \<in> set t \<and> CHR ''}'' \<in> set t" by simp
    with False show False by blast
  qed
  with n show ?thesis by (simp add: braceDelimited_def)
next
  case True
  then obtain a rest where a: "t = a @ CHR ''{'' # rest" "CHR ''{'' \<notin> set a"
    by (meson split_list_first)
  from True obtain y z where z: "t = y @ CHR ''}'' # z" "CHR ''}'' \<notin> set z"
    by (meson split_list_last)
  show ?thesis
  proof (cases "length a < length y")
    case True
    from a(1) z(1) have "a @ CHR ''{'' # rest = y @ CHR ''}'' # z" by simp
    then obtain us where "a = y @ us \<and> us @ CHR ''{'' # rest = CHR ''}'' # z \<or>
        a @ us = y \<and> CHR ''{'' # rest = us @ CHR ''}'' # z"
      unfolding append_eq_append_conv2 by blast
    with True have us: "a @ us = y" "CHR ''{'' # rest = us @ CHR ''}'' # z" by auto
    with True obtain m where m: "us = CHR ''{'' # m" by (cases us) auto
    with us z(1) have "t = a @ ''{'' @ m @ ''}'' @ z" by auto
    moreover from this have "braceSlice t = Some (''{'' @ m @ ''}'')"
      using braceSlice_split [OF a(2) z(2)] by simp
    ultimately show ?thesis using a(2) z(2) unfolding braceDelimited_def by auto
  next
    case False
    then have le: "length y \<le> length a" by simp
    have n: "braceSlice t = None" by (rule braceSlice_reversed [OF a(2) z(2) a(1) z(1) le])
    have "\<not> (\<exists>a' m z'. t = a' @ ''{'' @ m @ ''}'' @ z')"
    proof
      assume "\<exists>a' m z'. t = a' @ ''{'' @ m @ ''}'' @ z'"
      then obtain a' m z' where d: "t = a' @ ''{'' @ m @ ''}'' @ z'" by blast
      have "length a \<le> length a'"
      proof (rule ccontr)
        assume "\<not> length a \<le> length a'"
        then have "length a' < length a" by simp
        moreover from d a(1) have "a ! length a' = CHR ''{''"
          by (metis append_Cons append_Nil calculation nth_append nth_append_length)
        ultimately show False using a(2) by (metis nth_mem)
      qed
      moreover have "length a' + 1 + length m \<le> length y"
      proof (rule ccontr)
        assume "\<not> length a' + 1 + length m \<le> length y"
        then have lt: "length y < length (a' @ ''{'' @ m)" by simp
        from d z(1) have e: "(a' @ ''{'' @ m) @ CHR ''}'' # z' = y @ CHR ''}'' # z" by simp
        then obtain us where "a' @ ''{'' @ m = y @ us \<and> us @ CHR ''}'' # z' = CHR ''}'' # z \<or>
            (a' @ ''{'' @ m) @ us = y \<and> CHR ''}'' # z' = us @ CHR ''}'' # z"
          unfolding append_eq_append_conv2 by blast
        with lt have us: "a' @ ''{'' @ m = y @ us" "us @ CHR ''}'' # z' = CHR ''}'' # z"
          by auto
        with lt have "us \<noteq> []" by auto
        then obtain u us' where "us = u # us'" by (cases us) auto
        with us(2) have "CHR ''}'' \<in> set z" by auto
        with z(2) show False by blast
      qed
      ultimately show False using le by simp
    qed
    with n show ?thesis by (simp add: braceDelimited_def)
  qed
qed

lemma lazyUntilFence_shortest:
  "lazyUntilFence s = Some inner \<Longrightarrow> s = inner' @ ''```'' @ post' \<Longrightarrow>
   length inner \<le> length inner'"
proof (induction s arbitrary: inner inner')
  case Nil
  then show ?case by simp
next
  case (Cons c cs)
  show ?case
  proof (cases "take 3 (c # cs) = ''```''")
    case True
    with Cons.prems(1) show ?thesis by simp
  next
    case False
    with Cons.prems(1) obtain rest where rest: "lazyUntilFence cs = Some rest" "inner = c # rest"
      by auto
    from False Cons.prems(2) have "inner' \<noteq> []" by auto
    then obtain d ds where d: "inner' = d # ds" by (cases inner') auto
    with Cons.prems(2) have "cs = ds @ ''```'' @ post'" by simp
    from Cons.IH [OF rest(1) this] rest(2) d show ?thesis by simp
  qed
qed

lemma fenceMatch_first:
  "fenceMatch text = Some inner \<Longrightarrow> firstFence text inner"
proof (induction "text")
  case Nil
  then show ?case by simp
next
  case (Cons c cs)
  show ?case
  proof (cases "take 7 (c # cs) = ''```json'' \<and> lazyUntilFence (drop 7 (c # cs)) \<noteq> None")
    case True
    then obtain found where found: "lazyUntilFence (drop 7 (c # cs)) = Some found" by auto
    with True Cons.prems have eq: "found = inner" by simp
    from found eq obtain post where post: "drop 7 (c # cs) = inner @ ''```'' @ post"
      using lazyUntilFence_sound by blast
    have "c # cs = take 7 (c # cs) @ drop 7 (c # cs)" by (simp only: append_take_drop_id)
    with True post have whole: "c # cs = [] @ ''```json'' @ inner @ ''```'' @ post" by simp
    have "\<forall>pre' inner' post'. c # cs = pre' @ ''```json'' @ inner' @ ''```'' @ post' \<longrightarrow>
            length ([] :: string) < length pre' \<or>
            (length ([] :: string) = length pre' \<and> length inner \<le> length inner')"
    proof (intro allI impI)
      fix pre' inner' post'
      assume d: "c # cs = pre' @ ''```json'' @ inner' @ ''```'' @ post'"
      show "length ([] :: string) < length pre' \<or>
            (length ([] :: string) = length pre' \<and> length inner \<le> length inner')"
      proof (cases pre')
        case Nil
        with d have "drop 7 (c # cs) = inner' @ ''```'' @ post'" by simp
        from lazyUntilFence_shortest [OF found [unfolded eq] this] Nil show ?thesis by simp
      next
        case (Cons x xs)
        then show ?thesis by simp
      qed
    qed
    with whole show ?thesis unfolding firstFence_def by blast
  next
    case False
    with Cons.prems have "fenceMatch cs = Some inner" by (auto split: if_splits option.splits)
    from Cons.IH [OF this] obtain pre post where
      dec: "cs = pre @ ''```json'' @ inner @ ''```'' @ post"
      and least: "\<forall>pre' inner' post'. cs = pre' @ ''```json'' @ inner' @ ''```'' @ post' \<longrightarrow>
            length pre < length pre' \<or> (length pre = length pre' \<and> length inner \<le> length inner')"
      unfolding firstFence_def by blast
    have whole: "c # cs = (c # pre) @ ''```json'' @ inner @ ''```'' @ post" using dec by simp
    have "\<forall>pre' inner' post'. c # cs = pre' @ ''```json'' @ inner' @ ''```'' @ post' \<longrightarrow>
            length (c # pre) < length pre' \<or>
            (length (c # pre) = length pre' \<and> length inner \<le> length inner')"
    proof (intro allI impI)
      fix pre' inner' post'
      assume d: "c # cs = pre' @ ''```json'' @ inner' @ ''```'' @ post'"
      show "length (c # pre) < length pre' \<or>
            (length (c # pre) = length pre' \<and> length inner \<le> length inner')"
      proof (cases pre')
        case Nil
        with d have t: "take 7 (c # cs) = ''```json''"
          and dr: "drop 7 (c # cs) = inner' @ ''```'' @ post'" by simp_all
        from dr have "lazyUntilFence (drop 7 (c # cs)) \<noteq> None"
          using lazyUntilFence_complete by metis
        with t False show ?thesis by blast
      next
        case (Cons x xs)
        with d have "cs = xs @ ''```json'' @ inner' @ ''```'' @ post'" by simp
        with least have "length pre < length xs \<or> (length pre = length xs \<and> length inner \<le> length inner')"
          by blast
        with Cons show ?thesis by auto
      qed
    qed
    with whole show ?thesis unfolding firstFence_def by blast
  qed
qed

lemma extractJson_fenced_example:
  \<open>extractJson (''prefix ```json'' @ [CHR 0x0A] @ ''{"frames":[]}'' @ [CHR 0x0A] @ ''``` suffix'')
     = Some ''{"frames":[]}''\<close>
  by (simp add: extractJson_def trim_def isWhiteSpace_def)

lemma extractJson_brace_example: \<open>extractJson ''foo {"a":1} bar'' = Some ''{"a":1}''\<close>
  by (simp add: extractJson_def braceSlice_def indexOf_def lastIndexOf_def sliceString_def)

lemma extractJson_plain_example: "extractJson ''no payload here'' = None"
  by (simp add: extractJson_def braceSlice_def indexOf_def lastIndexOf_def sliceString_def)

text \<open>
  C5, as stated, at a fence whose interior is empty: a block tagged json exists, its
  trimmed interior is the empty string, and the extractor returns the brace-delimited
  substring instead, because an empty capture is falsy.
\<close>

theorem extractJson_empty_fence_counterexample:
  "hasJsonFence ''```json```{}'' \<and> fenceMatch ''```json```{}'' = Some [] \<and>
   extractJson ''```json```{}'' = Some ''{}'' \<and>
   extractJson ''```json```{}'' \<noteq> Some (trim [])"
proof -
  have "''```json```{}'' = [] @ ''```json'' @ [] @ ''```'' @ ''{}''" by simp
  then have "hasJsonFence ''```json```{}''" unfolding hasJsonFence_def by blast
  then show ?thesis
    by (simp add: extractJson_def braceSlice_def indexOf_def lastIndexOf_def sliceString_def
        trim_def)
qed

text \<open>
  C5, amended. For every input text: a fenced block tagged json exists exactly when the
  fence pattern matches, and the match is the leftmost block, up to its nearest closing
  fence; if it matches with a non-empty interior, the extractor returns the trimmed
  interior; if there is no such block, or the interior is empty, it returns the
  substring from the first opening brace to the last closing brace inclusive when the
  former precedes the latter, and no result otherwise. The three examples of the
  specification extract \<open>{"frames":[]}\<close>, \<open>{"a":1}\<close> and nothing.
\<close>

theorem extractJson_policy:
  \<open>(hasJsonFence t \<longleftrightarrow> (\<exists>inner. fenceMatch t = Some inner)) \<and>
   (\<forall>inner. fenceMatch t = Some inner \<longrightarrow> firstFence t inner) \<and>
   (\<forall>inner. fenceMatch t = Some inner \<and> inner \<noteq> [] \<longrightarrow> extractJson t = Some (trim inner)) \<and>
   (\<not> hasJsonFence t \<or> fenceMatch t = Some [] \<longrightarrow>
      braceDelimited t (extractJson t)) \<and>
   extractJson (''prefix ```json'' @ [CHR 0x0A] @ ''{"frames":[]}'' @ [CHR 0x0A] @ ''``` suffix'')
     = Some ''{"frames":[]}'' \<and>
   extractJson ''foo {"a":1} bar'' = Some ''{"a":1}'' \<and>
   extractJson ''no payload here'' = None\<close>
proof -
  have 1: "hasJsonFence t \<longleftrightarrow> (\<exists>inner. fenceMatch t = Some inner)"
    by (rule hasJsonFence_iff)
  have 2: "\<forall>inner. fenceMatch t = Some inner \<and> inner \<noteq> [] \<longrightarrow> extractJson t = Some (trim inner)"
    by (auto simp: extractJson_def)
  have 3: "\<not> hasJsonFence t \<or> fenceMatch t = Some [] \<longrightarrow> braceDelimited t (extractJson t)"
  proof
    assume "\<not> hasJsonFence t \<or> fenceMatch t = Some []"
    then have "fenceMatch t = None \<or> fenceMatch t = Some []" using 1 by auto
    then have "extractJson t = braceSlice t"
      by (cases "t = []") (auto simp: extractJson_def braceSlice_def indexOf_def)
    then show "braceDelimited t (extractJson t)" using braceSlice_spec [of t] by simp
  qed
  have 4: "\<forall>inner. fenceMatch t = Some inner \<longrightarrow> firstFence t inner"
    using fenceMatch_first by blast
  show ?thesis
    using 1 2 3 4 extractJson_fenced_example extractJson_brace_example extractJson_plain_example
    by blast
qed

theorem extractJson_policy_witness:
  \<open>extractJson ''see ```json {"a":1} ``` above'' = Some ''{"a":1}'' \<and>
   braceDelimited ''{"b":2} trailing'' (extractJson ''{"b":2} trailing'')\<close>
proof -
  have f: \<open>fenceMatch ''see ```json {"a":1} ``` above'' = Some '' {"a":1} ''\<close> by simp
  have n: \<open>fenceMatch ''{"b":2} trailing'' = None\<close> by simp
  have \<open>extractJson ''see ```json {"a":1} ``` above'' = Some (trim '' {"a":1} '')\<close>
    using extractJson_policy [of \<open>''see ```json {"a":1} ``` above''\<close>] f by blast
  moreover have \<open>braceDelimited ''{"b":2} trailing'' (extractJson ''{"b":2} trailing'')\<close>
    using extractJson_policy [of \<open>''{"b":2} trailing''\<close>] n by auto
  ultimately show ?thesis by (simp add: trim_def isWhiteSpace_def)
qed

subsection \<open>Renderers under a host that accepts every call\<close>

lemma hostCall_accepts: "accepts host \<Longrightarrow> hostCall host c effect s = apfst Inr (effect s)"
  by (simp add: hostCall_def accepts_def)

lemma ensureFont_accepts: "accepts host \<Longrightarrow> ensureFont host style s = (Inr (), withFont style s)"
  by (simp add: ensureFont_def Let_def andThen_def loadFontAsync_def accepts_def withFont_def)

lemma scene_withFont [simp]: "scene (withFont style s) = scene s"
  by (simp add: withFont_def)

lemma createText_accepts:
  "accepts host \<Longrightarrow> createText host s =
     (Inr (length (scene s)),
      s\<lparr>scene := scene s @ [freshNode TEXT], page := page s @ [length (scene s)]\<rparr>)"
  by (simp add: createText_def hostCall_accepts allocate_def)

lemma createFrame_accepts:
  "accepts host \<Longrightarrow> createFrame host s =
     (Inr (length (scene s)),
      s\<lparr>scene := scene s @ [freshNode FRAME], page := page s @ [length (scene s)]\<rparr>)"
  by (simp add: createFrame_def hostCall_accepts allocate_def)

lemma assign_accepts:
  "accepts host \<Longrightarrow> i < length (scene s) \<Longrightarrow>
   assign host i p s = (Inr (), s\<lparr>scene := (scene s)[i := applyProp p (scene s ! i)]\<rparr>)"
  by (simp add: assign_def hostCall_accepts)

lemma resize_accepts:
  "accepts host \<Longrightarrow> i < length (scene s) \<Longrightarrow>
   resize host i w h s = (Inr (), s\<lparr>scene := (scene s)[i := (scene s ! i)\<lparr>width := w, height := h\<rparr>]\<rparr>)"
  by (simp add: resize_def hostCall_accepts)

lemma appendChild_accepts:
  "accepts host \<Longrightarrow> appendChild host p c s = (Inr (), attach p c s)"
  by (simp add: appendChild_def hostCall_accepts)

lemma attach_fresh:
  assumes "p < length sc" and "parent n = None"
  shows "attach p (length sc) (s\<lparr>scene := sc @ [n]\<rparr>) =
         s\<lparr>scene := sc[p := (sc ! p)\<lparr>children := children (sc ! p) @ [length sc]\<rparr>]
                       @ [n\<lparr>parent := Some p\<rparr>],
           page := removeAll (length sc) (page s)\<rparr>"
  using assms by (simp add: attach_def Let_def nth_append list_update_append)

lemma createTextNode_effect:
  assumes a: "accepts host" and p: "par < length (scene s)"
  shows "\<exists>s'. createTextNode host par node s = (Inr (), s') \<and>
           scene s' = (scene s)[par := (scene s ! par)\<lparr>children := children (scene s ! par) @ [length (scene s)]\<rparr>]
                      @ [textSceneNode par (node_fields node)]"
  unfolding createTextNode_def Let_def
  by (simp add: andThen_def ensureFont_accepts [OF a] createText_accepts [OF a]
      assign_accepts [OF a] resize_accepts [OF a] appendChild_accepts [OF a]
      attach_fresh p freshNode_def textSceneNode_def)

lemma attach_scene:
  assumes "p < length (scene s)" "c < length (scene s)" "p \<noteq> c" "parent (scene s ! c) = None"
  shows "scene (attach p c s) =
         (scene s)[c := (scene s ! c)\<lparr>parent := Some p\<rparr>,
                   p := (scene s ! p)\<lparr>children := children (scene s ! p) @ [c]\<rparr>]"
  using assms by (simp add: attach_def Let_def)

lemma blockContainer_effect:
  assumes a: "accepts host"
  shows "\<exists>s1 hd. blockContainer host f s = (Inr (length (scene s)), s1) \<and>
           length (scene s1) = length (scene s) + 1 + headingCount f \<and>
           (\<forall>i<length (scene s). scene s1 ! i = scene s ! i) \<and>
           kind (scene s1 ! length (scene s)) = FRAME \<and>
           parent (scene s1 ! length (scene s)) = None \<and>
           posX (scene s1 ! length (scene s)) = nullish (node_x f) 32 \<and>
           posY (scene s1 ! length (scene s)) = nullish (node_y f) 32 \<and>
           children (scene s1 ! length (scene s)) = hd \<and> length hd = headingCount f \<and>
           (\<forall>h\<in>set hd. length (scene s) < h \<and> h < length (scene s1) \<and>
                kind (scene s1 ! h) = TEXT \<and> children (scene s1 ! h) = [])"
proof (cases "truthy (node_title f) \<or> truthy (node_content f)")
  case False
  then show ?thesis
    unfolding blockContainer_def blockHeading_def
    by (simp add: andThen_def result_def createFrame_accepts [OF a]
        assign_accepts [OF a] resize_accepts [OF a] freshNode_def headingCount_def nth_append)
next
  case True
  show ?thesis
  proof (cases "truthy (node_content f)")
    case False
    with True show ?thesis
      unfolding blockContainer_def blockHeading_def
      by (simp add: andThen_def result_def createFrame_accepts [OF a] createText_accepts [OF a]
          ensureFont_accepts [OF a] appendChild_accepts [OF a] attach_scene
          assign_accepts [OF a] resize_accepts [OF a] freshNode_def headingCount_def nth_append)
  next
    case c: True
    then show ?thesis
      unfolding blockContainer_def blockHeading_def
      by (simp add: andThen_def result_def createFrame_accepts [OF a] createText_accepts [OF a]
          ensureFont_accepts [OF a] appendChild_accepts [OF a] attach_scene
          assign_accepts [OF a] resize_accepts [OF a] freshNode_def headingCount_def nth_append)
  qed
qed

lemma grows_trans:
  assumes "grows par ids1 s s1" "grows par ids2 s1 s2" "par < length (scene s)"
  shows "grows par (ids1 @ ids2) s s2"
  using assms unfolding grows_def by auto

lemma grows_nth:
  "grows par ids s s' \<Longrightarrow> i < length (scene s) \<Longrightarrow> i \<noteq> par \<Longrightarrow> scene s' ! i = scene s ! i"
  unfolding grows_def by blast

lemma grows_refl: "par < length (scene s) \<Longrightarrow> grows par [] s s"
  unfolding grows_def by simp

lemma text_step:
  assumes a: "accepts host" and p: "par < length (scene s)"
    and t: "node_type (node_fields n) = ''text''"
  shows "\<exists>s1. createTextNode host par (positioned n index depth) s = (Inr (), s1) \<and>
           grows par [length (scene s)] s s1 \<and> length (scene s) < length (scene s1) \<and>
           placedAs n index depth (scene s1 ! length (scene s))"
proof -
  from createTextNode_effect [OF a p] obtain s1 where
    r: "createTextNode host par (positioned n index depth) s = (Inr (), s1)"
    and sc: "scene s1 = (scene s)[par := (scene s ! par)\<lparr>children := children (scene s ! par) @ [length (scene s)]\<rparr>]
                      @ [textSceneNode par (node_fields (positioned n index depth))]"
    by blast
  have g: "grows par [length (scene s)] s s1"
    unfolding grows_def sc using p by (simp add: nth_append)
  have l: "length (scene s) < length (scene s1)" unfolding sc by simp
  have "scene s1 ! length (scene s) = textSceneNode par (node_fields (positioned n index depth))"
    unfolding sc by (simp add: nth_append)
  then have "placedAs n index depth (scene s1 ! length (scene s))"
    using t by (simp add: placedAs_def textSceneNode_def positioned_def nullish_def freshNode_def)
  with r g l show ?thesis by blast
qed

lemma block_step:
  assumes b: "blockOk host par (positioned n index depth) s"
    and t: "node_type (node_fields n) \<noteq> ''text''"
  shows "\<exists>s1. createBlockNode host par (positioned n index depth) s = (Inr (), s1) \<and>
           grows par [length (scene s)] s s1 \<and> length (scene s) < length (scene s1) \<and>
           placedAs n index depth (scene s1 ! length (scene s))"
  using b t unfolding blockOk_def
  by (auto simp: placedAs_def positioned_def nullish_def)

lemma place_cons:
  assumes p: "par < length (scene s)"
    and first: "first s = (Inr (), s1)" "grows par [length (scene s)] s s1"
      "length (scene s) < length (scene s1)" "placedAs n index depth (scene s1 ! length (scene s))"
    and rest: "placeOk host par rest (Suc index) depth s1"
    and unfold: "placeFrom host par (n # rest) index depth = andThen first (\<lambda>_. placeFrom host par rest (Suc index) depth)"
  shows "placeOk host par (n # rest) index depth s"
proof -
  from rest obtain s2 ids where
    r: "placeFrom host par rest (Suc index) depth s1 = (Inr (), s2)"
    and g: "grows par ids s1 s2" and len: "length ids = length rest"
    and each: "\<forall>j<length rest. length (scene s1) \<le> ids ! j \<and> ids ! j < length (scene s2) \<and>
            placedAs (rest ! j) (Suc index + j) depth (scene s2 ! (ids ! j))"
    unfolding placeOk_def by blast
  have run: "placeFrom host par (n # rest) index depth s = (Inr (), s2)"
    unfolding unfold by (simp add: andThen_def first(1) r)
  have g2: "grows par ([length (scene s)] @ ids) s s2"
    by (rule grows_trans [OF first(2) g p])
  have le: "length (scene s1) \<le> length (scene s2)" using g unfolding grows_def by blast
  have keep: "scene s2 ! length (scene s) = scene s1 ! length (scene s)"
    using grows_nth [OF g first(3)] p by simp
  have "\<forall>j<length (n # rest). length (scene s) \<le> (length (scene s) # ids) ! j \<and>
          (length (scene s) # ids) ! j < length (scene s2) \<and>
          placedAs ((n # rest) ! j) (index + j) depth (scene s2 ! ((length (scene s) # ids) ! j))"
  proof (intro allI impI)
    fix j assume j: "j < length (n # rest)"
    show "length (scene s) \<le> (length (scene s) # ids) ! j \<and>
          (length (scene s) # ids) ! j < length (scene s2) \<and>
          placedAs ((n # rest) ! j) (index + j) depth (scene s2 ! ((length (scene s) # ids) ! j))"
    proof (cases j)
      case 0
      then show ?thesis using first(3,4) le keep by simp
    next
      case (Suc k)
      with j have k: "k < length rest" by simp
      from each k have "length (scene s1) \<le> ids ! k \<and> ids ! k < length (scene s2) \<and>
            placedAs (rest ! k) (Suc index + k) depth (scene s2 ! (ids ! k))" by blast
      then show ?thesis using Suc first(3) by simp
    qed
  qed
  with run g2 len show ?thesis unfolding placeOk_def
    by (intro exI [of _ s2] exI [of _ "length (scene s) # ids"]) simp
qed

lemma block_finish:
  assumes a: "accepts host" and p: "par < length (scene s)"
    and kidsOk: "\<And>s1. length (scene s) < length (scene s1) \<Longrightarrow> childList (BlueprintNode f ns) \<noteq> [] \<Longrightarrow>
                   placeOk host (length (scene s)) (childList (BlueprintNode f ns)) 0 1 s1"
  shows "blockOk host par (BlueprintNode f ns) s"
proof -
  let ?c = "length (scene s)"
  let ?kl = "childList (BlueprintNode f ns)"
  from blockContainer_effect [OF a, of f s] obtain s1 hd where
    run1: "blockContainer host f s = (Inr ?c, s1)"
    and len1: "length (scene s1) = ?c + 1 + headingCount f"
    and old1: "\<forall>i<?c. scene s1 ! i = scene s ! i"
    and kind1: "kind (scene s1 ! ?c) = FRAME"
    and parent1: "parent (scene s1 ! ?c) = None"
    and x1: "posX (scene s1 ! ?c) = nullish (node_x f) 32"
    and y1: "posY (scene s1 ! ?c) = nullish (node_y f) 32"
    and ch1: "children (scene s1 ! ?c) = hd"
    and lhd: "length hd = headingCount f"
    and hd1: "\<forall>h\<in>set hd. ?c < h \<and> h < length (scene s1) \<and>
                kind (scene s1 ! h) = TEXT \<and> children (scene s1 ! h) = []"
    by blast
  have c1: "?c < length (scene s1)" using len1 by simp
  let ?kidsRun = "(case ns of None \<Rightarrow> result () | Some [] \<Rightarrow> result ()
         | Some (c # cs) \<Rightarrow> placeFrom host ?c (c # cs) 0 (if 0 < length (c # cs) then 1 else 0))"
  have "\<exists>s2 kids. ?kidsRun s1 = (Inr (), s2) \<and> grows ?c kids s1 s2 \<and>
          length kids = length ?kl \<and>
          (\<forall>j<length ?kl. length (scene s1) \<le> kids ! j \<and> kids ! j < length (scene s2) \<and>
              placedAs (?kl ! j) j 1 (scene s2 ! (kids ! j)))"
  proof (cases "?kl = []")
    case True
    then have "?kidsRun = result ()"
      by (auto simp: childList_def split: option.splits list.splits)
    then have "?kidsRun s1 = (Inr (), s1)" by (simp add: result_def)
    moreover have "grows ?c [] s1 s1" by (rule grows_refl [OF c1])
    ultimately show ?thesis using True by auto
  next
    case False
    then obtain c cs where kl: "?kl = c # cs" by (cases ?kl) auto
    then have ns: "ns = Some (c # cs)" by (auto simp: childList_def split: option.splits)
    have k: "?kidsRun = placeFrom host ?c (c # cs) 0 1" using ns by simp
    from kidsOk [OF c1 False] have "placeOk host ?c (c # cs) 0 1 s1" using kl by simp
    then show ?thesis unfolding placeOk_def k kl by simp
  qed
  then obtain s2 kids where
    run2: "?kidsRun s1 = (Inr (), s2)" and g2: "grows ?c kids s1 s2"
    and lkids: "length kids = length ?kl"
    and kids2: "\<forall>j<length ?kl. length (scene s1) \<le> kids ! j \<and> kids ! j < length (scene s2) \<and>
              placedAs (?kl ! j) j 1 (scene s2 ! (kids ! j))"
    by blast
  have le2: "length (scene s1) \<le> length (scene s2)" using g2 unfolding grows_def by blast
  have c2: "?c < length (scene s2)" using c1 le2 by simp
  have p2: "par < length (scene s2)" using p c2 by simp
  have ne: "par \<noteq> ?c" using p by simp
  have cont2: "scene s2 ! ?c = (scene s1 ! ?c)\<lparr>children := hd @ kids\<rparr>"
    using g2 ch1 unfolding grows_def by simp
  then have parent2: "parent (scene s2 ! ?c) = None" using parent1 by simp
  have old2: "\<And>i. i < length (scene s1) \<Longrightarrow> i \<noteq> ?c \<Longrightarrow> scene s2 ! i = scene s1 ! i"
    using grows_nth [OF g2] by blast
  let ?s' = "attach par ?c s2"
  have run: "createBlockNode host par (BlueprintNode f ns) s = (Inr (), ?s')"
    by (simp add: andThen_def run1 run2 appendChild_accepts [OF a])
  have sc': "scene ?s' = (scene s2)[?c := (scene s2 ! ?c)\<lparr>parent := Some par\<rparr>,
                   par := (scene s2 ! par)\<lparr>children := children (scene s2 ! par) @ [?c]\<rparr>]"
    by (rule attach_scene [OF p2 c2 ne parent2])
  have len': "length (scene ?s') = length (scene s2)" unfolding sc' by simp
  have other: "\<And>i. i < length (scene s2) \<Longrightarrow> i \<noteq> par \<Longrightarrow> i \<noteq> ?c \<Longrightarrow>
                 scene ?s' ! i = scene s2 ! i"
    unfolding sc' by simp
  have atc: "scene ?s' ! ?c = (scene s2 ! ?c)\<lparr>parent := Some par\<rparr>"
    unfolding sc' using c2 ne by simp
  have atp: "scene ?s' ! par = (scene s2 ! par)\<lparr>children := children (scene s2 ! par) @ [?c]\<rparr>"
    unfolding sc' using p2 by simp
  have par2: "scene s2 ! par = scene s ! par"
    using old2 [of par] old1 p c1 by simp
  have g: "grows par [?c] s ?s'"
    unfolding grows_def
  proof (intro conjI allI impI)
    show "length (scene s) \<le> length (scene ?s')" using c2 len' by simp
  next
    fix i assume i: "i < length (scene s)" "i \<noteq> par"
    then have "scene ?s' ! i = scene s2 ! i" using other [of i] c2 by simp
    also have "\<dots> = scene s1 ! i" using old2 [of i] i c1 by simp
    also have "\<dots> = scene s ! i" using old1 i by simp
    finally show "scene ?s' ! i = scene s ! i" .
  next
    show "scene ?s' ! par = (scene s ! par)\<lparr>children := children (scene s ! par) @ [?c]\<rparr>"
      using atp par2 by simp
  qed
  have hd': "\<forall>h\<in>set hd. ?c < h \<and> h < length (scene ?s') \<and>
                kind (scene ?s' ! h) = TEXT \<and> children (scene ?s' ! h) = []"
  proof
    fix h assume h: "h \<in> set hd"
    with hd1 have h1: "?c < h" "h < length (scene s1)" "kind (scene s1 ! h) = TEXT"
      "children (scene s1 ! h) = []" by auto
    have "scene ?s' ! h = scene s2 ! h" using other [of h] h1 le2 p by simp
    also have "\<dots> = scene s1 ! h" using old2 [of h] h1 by simp
    finally show "?c < h \<and> h < length (scene ?s') \<and>
                kind (scene ?s' ! h) = TEXT \<and> children (scene ?s' ! h) = []"
      using h1 le2 len' by simp
  qed
  have kids': "\<forall>j<length kids. ?c < kids ! j \<and> kids ! j < length (scene ?s') \<and>
            placedAs (?kl ! j) j 1 (scene ?s' ! (kids ! j))"
  proof (intro allI impI)
    fix j assume j: "j < length kids"
    with kids2 lkids have k: "length (scene s1) \<le> kids ! j" "kids ! j < length (scene s2)"
      "placedAs (?kl ! j) j 1 (scene s2 ! (kids ! j))" by auto
    have "scene ?s' ! (kids ! j) = scene s2 ! (kids ! j)"
      using other [of "kids ! j"] k c1 p by simp
    then show "?c < kids ! j \<and> kids ! j < length (scene ?s') \<and>
            placedAs (?kl ! j) j 1 (scene ?s' ! (kids ! j))"
      using k c1 len' by simp
  qed
  show ?thesis
    unfolding blockOk_def
    apply (rule exI [of _ ?s'], rule exI [of _ hd], rule exI [of _ kids])
    using run g c2 len' atc cont2 kind1 x1 y1 lhd hd' lkids kids'
    apply simp
    done
qed

lemma place_block_ok:
  "accepts host \<longrightarrow> (\<forall>s. par < length (scene s) \<longrightarrow> placeOk host par ns index depth s)"
  "accepts host' \<longrightarrow> (\<forall>s. par' < length (scene s) \<longrightarrow> blockOk host' par' node s)"
proof (induction host par ns index depth and host' par' node rule: placeFrom_createBlockNode.induct)
  case (1 host par index depth)
  show ?case
    by (auto simp: placeOk_def result_def intro: grows_refl)
next
  case (2 host par f ns rest index depth)
  show ?case
  proof (intro impI allI)
    fix s :: Session assume a: "accepts host" and p: "par < length (scene s)"
    let ?n = "BlueprintNode f ns"
    let ?first = "(if node_type f = ''text''
        then createTextNode host par (positioned ?n index depth)
        else if node_type f \<in> {''panel'', ''card'', ''callout'', ''list''}
        then createBlockNode host par (positioned ?n index depth)
        else createBlockNode host par (positioned ?n index depth))"
    have "\<exists>s1. ?first s = (Inr (), s1) \<and>
           grows par [length (scene s)] s s1 \<and> length (scene s) < length (scene s1) \<and>
           placedAs ?n index depth (scene s1 ! length (scene s))"
    proof (cases "node_type f = ''text''")
      case True
      then show ?thesis using text_step [OF a p, of ?n index depth] by simp
    next
      case False
      have "blockOk host par (positioned ?n index depth) s"
        using 2(1,2) False a p by blast
      from block_step [OF this] False show ?thesis by simp
    qed
    then obtain s1 where first: "?first s = (Inr (), s1)"
      "grows par [length (scene s)] s s1" "length (scene s) < length (scene s1)"
      "placedAs ?n index depth (scene s1 ! length (scene s))"
      by blast
    have p1: "par < length (scene s1)" using p first(3) by simp
    have rest: "placeOk host par rest (Suc index) depth s1"
      using 2(3) a p1 by simp
    show "placeOk host par (?n # rest) index depth s"
      by (rule place_cons [where first = ?first, OF p first rest]) simp
  qed
next
  case (3 host par f ns)
  show ?case
  proof (intro impI allI)
    fix s :: Session assume a: "accepts host" and p: "par < length (scene s)"
    show "blockOk host par (BlueprintNode f ns) s"
    proof (rule block_finish [OF a p])
      fix s1 :: Session assume c1: "length (scene s) < length (scene s1)"
        and ne: "childList (BlueprintNode f ns) \<noteq> []"
      from ne obtain c cs where "childList (BlueprintNode f ns) = c # cs"
        by (cases "childList (BlueprintNode f ns)") auto
      then have ns: "ns = Some (c # cs)" by (auto simp: childList_def split: option.splits)
      from 3 [OF ns refl, of "length (scene s)"] a c1
      have "placeOk host (length (scene s)) (c # cs) 0 1 s1" by simp
      then show "placeOk host (length (scene s)) (childList (BlueprintNode f ns)) 0 1 s1"
        using ns by (simp add: childList_def)
    qed
  qed
qed

subsection \<open>Evaluation on sample inputs\<close>

lemma accepts_accepting: "accepts accepting"
  by (simp add: accepts_def accepting_def)

lemma placeNodes_ok:
  assumes "accepts host" "par < length (scene s)"
  shows "placeOk host par ns 0 depth s"
  using place_block_ok(1) assms by blast

lemma list5:
  assumes "length xs = 5"
  shows "xs = [xs ! 0, xs ! 1, xs ! 2, xs ! 3, xs ! 4]"
proof -
  from assms obtain a b c d e where "xs = [a, b, c, d, e]"
    by (auto simp: numeral_eq_Suc length_Suc_conv)
  then show ?thesis by simp
qed

lemmas run_defs = andThen_def result_def hostCall_def createFrame_def createText_def assign_def
  resize_def appendChild_def attach_def notify_def loadFontAsync_def ensureFont_def setAdd_def
  allocate_def

lemmas render_defs = createTextNode_def blockHeading_def blockContainer_def placeNodes_def
  positioned_def renderBlueprint_def fontStyle_def nullish_def orString_def orNumber_def
  truthy_def fallbackX_def fallbackY_def frameHeading_def

lemmas sample_defs = accepting_def emptySession_def textNode_def cardNode_def emptyFields_def
  freshNode_def

subsection \<open>Tree walker\<close>

text \<open>
  C6. Five sibling descriptors, each without x and y, walked at depth 0 under any parent:
  the walker appends five scene nodes to the parent, and their positions are, in order,
  (40,120), (380,120), (40,340), (380,340), (40,560). The editor is assumed to accept
  every call; the descriptors are arbitrary otherwise (texts or containers, with any
  subtrees).
\<close>

theorem placeNodes_five_positions:
  assumes a: "accepts host" and p: "par < length (scene s)"
    and len: "length ns = 5"
    and omitted: "\<forall>n\<in>set ns. node_x (node_fields n) = None \<and> node_y (node_fields n) = None"
  shows "\<exists>s' ids. placeNodes host par ns 0 s = (Inr (), s') \<and>
           children (scene s' ! par) = children (scene s ! par) @ ids \<and>
           map (\<lambda>i. (posX (scene s' ! i), posY (scene s' ! i))) ids =
             [(40, 120), (380, 120), (40, 340), (380, 340), (40, 560)]"
proof -
  from placeNodes_ok [OF a p, of ns 0] obtain s' ids where
    run: "placeFrom host par ns 0 0 s = (Inr (), s')" and g: "grows par ids s s'"
    and l: "length ids = length ns"
    and each: "\<forall>j<length ns. length (scene s) \<le> ids ! j \<and> ids ! j < length (scene s') \<and>
            placedAs (ns ! j) (0 + j) 0 (scene s' ! (ids ! j))"
    unfolding placeOk_def by blast
  have pos: "\<And>j. j < 5 \<Longrightarrow> posX (scene s' ! (ids ! j)) = fallbackX j 0 \<and>
                 posY (scene s' ! (ids ! j)) = fallbackY j"
  proof -
    fix j :: nat assume j: "j < 5"
    with len have "ns ! j \<in> set ns" by simp
    with omitted have "node_x (node_fields (ns ! j)) = None" "node_y (node_fields (ns ! j)) = None"
      by auto
    moreover from each j len have "placedAs (ns ! j) j 0 (scene s' ! (ids ! j))" by simp
    ultimately show "posX (scene s' ! (ids ! j)) = fallbackX j 0 \<and>
                 posY (scene s' ! (ids ! j)) = fallbackY j"
      by (simp add: placedAs_def nullish_def)
  qed
  have ids: "ids = [ids ! 0, ids ! 1, ids ! 2, ids ! 3, ids ! 4]"
    using l len by (intro list5) simp
  have "map (\<lambda>i. (posX (scene s' ! i), posY (scene s' ! i))) ids =
          [(fallbackX 0 0, fallbackY 0), (fallbackX 1 0, fallbackY 1), (fallbackX 2 0, fallbackY 2),
           (fallbackX 3 0, fallbackY 3), (fallbackX 4 0, fallbackY 4)]"
    by (subst ids) (simp add: pos)
  also have "\<dots> = [(40, 120), (380, 120), (40, 340), (380, 340), (40, 560)]"
    by (simp add: fallbackX_def fallbackY_def)
  finally have m: "map (\<lambda>i. (posX (scene s' ! i), posY (scene s' ! i))) ids =
             [(40, 120), (380, 120), (40, 340), (380, 340), (40, 560)]" .
  have c: "children (scene s' ! par) = children (scene s ! par) @ ids"
    using g unfolding grows_def by simp
  show ?thesis
    unfolding placeNodes_def
    by (intro exI [of _ s'] exI [of _ ids] conjI run m c)
qed

theorem placeNodes_five_positions_witness:
  "\<exists>s' ids. placeNodes accepting 0 [textNode, cardNode, textNode, cardNode, textNode] 0 frameSession
               = (Inr (), s') \<and>
           children (scene s' ! 0) = ids \<and>
           map (\<lambda>i. (posX (scene s' ! i), posY (scene s' ! i))) ids =
             [(40, 120), (380, 120), (40, 340), (380, 340), (40, 560)]"
  using placeNodes_five_positions [OF accepts_accepting,
      of 0 frameSession "[textNode, cardNode, textNode, cardNode, textNode]"]
  by (simp add: frameSession_def emptySession_def freshNode_def textNode_def cardNode_def
      emptyFields_def)

text \<open>
  C2, as stated, for a container rendered at depth 1: a frame holds a card, which holds a
  card, which holds one text without x. The inner card is walked at depth 1 (its x is
  40 + 16 = 56); its child would be walked at depth 2 and get x = 40 + 2 * 16 = 72, but
  the block renderer passes the constant depth 1 and the child gets x = 56.
\<close>

theorem nested_depth_counterexample:
  "map kind (scene (snd (renderBlueprint accepting nestedBlueprint Screen emptySession)))
     = [FRAME, FRAME, FRAME, TEXT] \<and>
   map children (scene (snd (renderBlueprint accepting nestedBlueprint Screen emptySession)))
     = [[1], [2], [3], []] \<and>
   map posX (scene (snd (renderBlueprint accepting nestedBlueprint Screen emptySession)))
     = [- 100, 40, 56, 56] \<and>
   (56 :: rat) \<noteq> 40 + of_nat (0 mod 2) * 340 + (1 + 1) * 16"
  by (simp add: run_defs render_defs sample_defs nestedBlueprint_def nestedCard_def Let_def)

text \<open>
  C2, amended. For every container node with a non-empty child list, whatever the depth
  \<open>d\<close> at which the walker renders it: the children are rendered into that
  container, after its synthesized heading texts and in descriptor order, by the walker
  invoked with depth 1, so a child at sibling index \<open>i\<close> with omitted x gets
  x = 40 + (i mod 2) * 340 + 16. This is the claimed (d + 1) * 16 exactly for d = 0.
\<close>

theorem block_children_depth_one:
  assumes a: "accepts host" and p: "par < length (scene s)"
    and t: "node_type f \<noteq> ''text''" and ne: "ns \<noteq> []"
  shows "\<exists>s' container heading kids.
           placeNodes host par [BlueprintNode f (Some ns)] d s = (Inr (), s') \<and>
           children (scene s' ! par) = children (scene s ! par) @ [container] \<and>
           kind (scene s' ! container) = FRAME \<and>
           children (scene s' ! container) = heading @ kids \<and>
           length heading = headingCount f \<and> length kids = length ns \<and>
           (\<forall>i<length ns. placedAs (ns ! i) i 1 (scene s' ! (kids ! i))) \<and>
           (\<forall>i<length ns. node_x (node_fields (ns ! i)) = None \<longrightarrow>
               posX (scene s' ! (kids ! i)) = 40 + of_nat (i mod 2) * 340 + 16)"
proof -
  let ?n = "positioned (BlueprintNode f (Some ns)) 0 d"
  have "blockOk host par ?n s" using place_block_ok(2) a p by blast
  then obtain s' hd kids where
    run: "createBlockNode host par ?n s = (Inr (), s')"
    and g: "grows par [length (scene s)] s s'"
    and k: "kind (scene s' ! length (scene s)) = FRAME"
    and ch: "children (scene s' ! length (scene s)) = hd @ kids"
    and lhd: "length hd = headingCount (node_fields ?n)"
    and lk: "length kids = length (childList ?n)"
    and each: "\<forall>j<length kids. length (scene s) < kids ! j \<and> kids ! j < length (scene s') \<and>
            placedAs (childList ?n ! j) j 1 (scene s' ! (kids ! j))"
    unfolding blockOk_def by blast
  have cl: "childList ?n = ns" by (simp add: childList_def positioned_def)
  have hc: "headingCount (node_fields ?n) = headingCount f"
    by (simp add: headingCount_def positioned_def)
  have r: "placeNodes host par [BlueprintNode f (Some ns)] d s = (Inr (), s')"
    using t run by (simp add: placeNodes_def andThen_def result_def)
  have c: "children (scene s' ! par) = children (scene s ! par) @ [length (scene s)]"
    using g unfolding grows_def by simp
  have e1: "\<forall>i<length ns. placedAs (ns ! i) i 1 (scene s' ! (kids ! i))"
    using each lk cl by simp
  have e2: "\<forall>i<length ns. node_x (node_fields (ns ! i)) = None \<longrightarrow>
               posX (scene s' ! (kids ! i)) = 40 + of_nat (i mod 2) * 340 + 16"
    using e1 by (simp add: placedAs_def nullish_def fallbackX_def)
  show ?thesis
    apply (rule exI [of _ s'], rule exI [of _ "length (scene s)"], rule exI [of _ hd],
        rule exI [of _ kids])
    using r c k ch lhd hc lk cl e1 e2 by simp
qed

theorem block_children_depth_one_witness:
  "\<exists>s' container heading kids.
     placeNodes accepting 0 [cardNode] 1 frameSession = (Inr (), s') \<and>
     children (scene s' ! 0) = [container] \<and>
     children (scene s' ! container) = heading @ kids \<and> length kids = 2 \<and>
     posX (scene s' ! (kids ! 0)) = 56 \<and> posX (scene s' ! (kids ! 1)) = 396"
proof -
  from block_children_depth_one [OF accepts_accepting, of 0 frameSession
      "emptyFields\<lparr>node_type := ''card''\<rparr>" "[textNode, textNode]" 1]
  obtain s' container heading kids where
    "placeNodes accepting 0 [cardNode] 1 frameSession = (Inr (), s')"
    "children (scene s' ! 0) = [container]"
    "children (scene s' ! container) = heading @ kids" "length kids = 2"
    "\<forall>i<2. node_x (node_fields ([textNode, textNode] ! i)) = None \<longrightarrow>
               posX (scene s' ! (kids ! i)) = 40 + of_nat (i mod 2) * 340 + 16"
    by (auto simp: frameSession_def emptySession_def freshNode_def cardNode_def emptyFields_def)
  moreover from this(5) have "posX (scene s' ! (kids ! 0)) = 56" "posX (scene s' ! (kids ! 1)) = 396"
    by (auto simp: textNode_def emptyFields_def)
  ultimately show ?thesis by blast
qed

subsection \<open>Dispatch by kind\<close>





subsection \<open>Blueprint renderer\<close>

lemma descendants_leaf: "children (sc ! i) = [] \<Longrightarrow> descendants sc fuel i = []"
  by (cases fuel) auto

lemma concat_leaves:
  "\<forall>c\<in>set cs. children (sc ! c) = [] \<Longrightarrow>
   concat (map (\<lambda>c. c # descendants sc fuel c) cs) = cs"
  by (induction cs) (auto simp: descendants_leaf)

lemma descendants_flat:
  assumes "i < length sc" "\<forall>c\<in>set (children (sc ! i)). children (sc ! c) = []"
  shows "descendants sc (Suc fuel) i = children (sc ! i)"
  using assms by (simp add: concat_leaves)

lemma renderFrames_single:
  assumes a: "accepts host" and d: "\<not> truthy (frame_description framePlan)"
  shows "\<exists>sA. renderFrames host [framePlan] offsetX [] s =
           continueWith (placeNodes host (length (scene s)) (nullish (frame_nodes framePlan) []) 0 sA)
             (\<lambda>_. result [length (scene s)]) \<and>
           scene sA = scene s @ [frameShell framePlan offsetX (snd (viewportCenter s))]"
  apply (rule exI [of _ "s\<lparr>page := page s @ [length (scene s)],
                 scene := scene s @ [frameShell framePlan offsetX (snd (viewportCenter s))]\<rparr>"])
  using d
  apply (simp add: andThen_def Let_def createFrame_accepts [OF a] assign_accepts [OF a]
      resize_accepts [OF a] result_def frameShell_def freshNode_def cong: if_cong)
  done

lemma continueWith_returned: "m = (Inr a, s') \<Longrightarrow> continueWith m f = f a s'"
  by simp

text \<open>
  C3, as stated, on a blueprint of one frame without description that holds one text and
  one card with two nested texts: one frame container is created, and it has four
  descendant scene nodes (the text, the card's container and the two nested texts), not
  three.
\<close>

theorem roundtrip_count_counterexample:
  "fst (renderBlueprint accepting sampleBlueprint Screen emptySession) = Inr [0] \<and>
   map kind (scene (snd (renderBlueprint accepting sampleBlueprint Screen emptySession)))
     = [FRAME, TEXT, FRAME, TEXT, TEXT] \<and>
   map children (scene (snd (renderBlueprint accepting sampleBlueprint Screen emptySession)))
     = [[1, 2], [], [3, 4], [], []] \<and>
   descendantsOf (snd (renderBlueprint accepting sampleBlueprint Screen emptySession)) 0
     = [1, 2, 3, 4] \<and>
   length (descendantsOf (snd (renderBlueprint accepting sampleBlueprint Screen emptySession)) 0)
     \<noteq> 3"
  by (simp add: run_defs render_defs sample_defs sampleBlueprint_def descendantsOf_def Let_def
      numeral_eq_Suc)

text \<open>
  C3, amended. Rendering a blueprint of exactly one frame without description, holding one
  text node and one card node with two nested text nodes, returns exactly one frame
  container. Its children are, in descriptor order, the text and the card's container; the
  container's children are the heading texts synthesized from the card's own title and
  content (none, one or two) followed by the two nested texts in descriptor order; all
  texts are leaves. The frame therefore has 4 descendants plus the card's heading texts:
  exactly 4 when the card has neither title nor content. No heading is synthesized from
  the absent description: the frame's first child is the declared text.
\<close>

theorem one_frame_roundtrip:
  assumes a: "accepts host"
    and d: "\<not> truthy (frame_description framePlan)"
    and ns: "frame_nodes framePlan =
               Some [BlueprintNode ft nt,
                     BlueprintNode fc (Some [BlueprintNode f1 n1, BlueprintNode f2 n2])]"
    and types: "node_type ft = ''text''" "node_type fc = ''card''"
      "node_type f1 = ''text''" "node_type f2 = ''text''"
  shows "\<exists>s' t c hd k1 k2.
           renderBlueprint host \<lparr>frames = Some [framePlan]\<rparr> m s = (Inr [length (scene s)], s') \<and>
           kind (scene s' ! length (scene s)) = FRAME \<and>
           children (scene s' ! length (scene s)) = [t, c] \<and>
           placedAs (BlueprintNode ft nt) 0 0 (scene s' ! t) \<and>
           placedAs (BlueprintNode fc (Some [BlueprintNode f1 n1, BlueprintNode f2 n2])) 1 0 (scene s' ! c) \<and>
           children (scene s' ! c) = hd @ [k1, k2] \<and> length hd = headingCount fc \<and>
           (\<forall>h\<in>set hd. kind (scene s' ! h) = TEXT \<and> children (scene s' ! h) = []) \<and>
           placedAs (BlueprintNode f1 n1) 0 1 (scene s' ! k1) \<and>
           placedAs (BlueprintNode f2 n2) 1 1 (scene s' ! k2) \<and>
           descendantsOf s' (length (scene s)) = [t, c] @ hd @ [k1, k2] \<and>
           length (descendantsOf s' (length (scene s))) = 4 + headingCount fc"
proof -
  let ?F = "length (scene s)"
  let ?nt = "BlueprintNode ft nt"
  let ?kids = "[BlueprintNode f1 n1, BlueprintNode f2 n2]"
  let ?nc = "BlueprintNode fc (Some ?kids)"
  from renderFrames_single [OF a d, of "fst (viewportCenter s) - 100" s] obtain sA where
    runA: "renderFrames host [framePlan] (fst (viewportCenter s) - 100) [] s =
           continueWith (placeNodes host ?F [?nt, ?nc] 0 sA) (\<lambda>_. result [?F])"
    and scA: "scene sA = scene s @ [frameShell framePlan (fst (viewportCenter s) - 100) (snd (viewportCenter s))]"
    using ns by (auto simp: nullish_def)
  have FA: "?F < length (scene sA)" and lA: "length (scene sA) = Suc ?F" unfolding scA by simp_all
  have shell: "scene sA ! ?F = frameShell framePlan (fst (viewportCenter s) - 100) (snd (viewportCenter s))"
    unfolding scA by simp
  have tt: "node_type (node_fields ?nt) = ''text''" using types by simp
  from text_step [OF a FA tt, of 0 0] obtain s1 where
    r1: "createTextNode host ?F (positioned ?nt 0 0) sA = (Inr (), s1)"
    and g1: "grows ?F [length (scene sA)] sA s1"
    and l1: "length (scene sA) < length (scene s1)"
    and p1: "placedAs ?nt 0 0 (scene s1 ! length (scene sA))"
    by blast
  have F1: "?F < length (scene s1)" using FA l1 by simp
  have "blockOk host ?F (positioned ?nc 1 0) s1" using place_block_ok(2) a F1 by blast
  then obtain s2 hd kids where
    r2: "createBlockNode host ?F (positioned ?nc 1 0) s1 = (Inr (), s2)"
    and g2: "grows ?F [length (scene s1)] s1 s2"
    and l2: "length (scene s1) < length (scene s2)"
    and k2: "kind (scene s2 ! length (scene s1)) = FRAME"
    and x2: "posX (scene s2 ! length (scene s1)) = nullish (node_x (node_fields (positioned ?nc 1 0))) 32"
    and y2: "posY (scene s2 ! length (scene s1)) = nullish (node_y (node_fields (positioned ?nc 1 0))) 32"
    and ch2: "children (scene s2 ! length (scene s1)) = hd @ kids"
    and lhd: "length hd = headingCount (node_fields (positioned ?nc 1 0))"
    and hd2: "\<forall>h\<in>set hd. length (scene s1) < h \<and> h < length (scene s2) \<and>
            kind (scene s2 ! h) = TEXT \<and> children (scene s2 ! h) = []"
    and lk: "length kids = length (childList (positioned ?nc 1 0))"
    and kids2: "\<forall>j<length kids. length (scene s1) < kids ! j \<and> kids ! j < length (scene s2) \<and>
            placedAs (childList (positioned ?nc 1 0) ! j) j 1 (scene s2 ! (kids ! j))"
    unfolding blockOk_def by blast
  have cl: "childList (positioned ?nc 1 0) = ?kids" by (simp add: childList_def positioned_def)
  have hc: "headingCount (node_fields (positioned ?nc 1 0)) = headingCount fc"
    by (simp add: headingCount_def positioned_def)
  from lk cl obtain k1 k2 where kids: "kids = [k1, k2]"
    by (auto simp: length_Suc_conv)
  let ?T = "length (scene sA)"
  let ?C = "length (scene s1)"
  have place: "placeNodes host ?F [?nt, ?nc] 0 sA = (Inr (), s2)"
    using types r1 r2 by (simp add: placeNodes_def andThen_def result_def)
  let ?s' = "s2\<lparr>notices := notices s2 @ [completionNotice 1 m]\<rparr>"
  have run: "renderBlueprint host \<lparr>frames = Some [framePlan]\<rparr> m s = (Inr [?F], ?s')"
    by (simp add: renderBlueprint_def andThen_def runA place result_def notify_def
        hostCall_accepts [OF a] del: renderFrames.simps)
  have sc': "scene ?s' = scene s2" by simp
  have F2: "scene s2 ! ?F = (frameShell framePlan (fst (viewportCenter s) - 100) (snd (viewportCenter s)))
              \<lparr>children := [?T, ?C]\<rparr>"
    using g1 g2 shell unfolding grows_def by (simp add: frameShell_def freshNode_def)
  have T2: "scene s2 ! ?T = scene s1 ! ?T"
    using grows_nth [OF g2 l1] FA by simp
  have pT: "placedAs ?nt 0 0 (scene s2 ! ?T)" using p1 T2 by simp
  have pC: "placedAs ?nc 1 0 (scene s2 ! ?C)"
    using k2 x2 y2 types by (simp add: placedAs_def positioned_def nullish_def)
  have pk1: "placedAs (BlueprintNode f1 n1) 0 1 (scene s2 ! k1)"
    and pk2: "placedAs (BlueprintNode f2 n2) 1 1 (scene s2 ! k2)"
    using kids2 kids cl by auto
  have leafT: "children (scene s2 ! ?T) = []" using pT types by (simp add: placedAs_def)
  have leafk: "children (scene s2 ! k1) = []" "children (scene s2 ! k2) = []"
    using pk1 pk2 types by (simp_all add: placedAs_def)
  have leaves: "\<forall>c\<in>set (children (scene s2 ! ?C)). children (scene s2 ! c) = []"
    using ch2 hd2 kids leafk by auto
  have "3 \<le> length (scene s2)" using l1 l2 lA by simp
  then obtain fuel where "length (scene s2) = 3 + fuel" using le_Suc_ex by blast
  then have fuel: "length (scene s2) = Suc (Suc (Suc fuel))" by simp
  have dC: "descendants (scene s2) (Suc (Suc fuel)) ?C = hd @ kids"
    using descendants_flat [OF l2 leaves] ch2 by simp
  have dT: "descendants (scene s2) (Suc (Suc fuel)) ?T = []"
    by (rule descendants_leaf [OF leafT])
  have F2': "?F < length (scene s2)" using F1 l2 by simp
  have chF: "children (scene s2 ! ?F) = [?T, ?C]" unfolding F2 by simp
  have kF: "kind (scene s2 ! ?F) = FRAME" unfolding F2 by (simp add: frameShell_def freshNode_def)
  have "descendants (scene s2) (Suc (Suc (Suc fuel))) ?F =
          concat (map (\<lambda>c. c # descendants (scene s2) (Suc (Suc fuel)) c) [?T, ?C])"
    using F2' chF by simp
  also have "\<dots> = [?T, ?C] @ hd @ [k1, k2]" using dC dT kids by simp
  finally have desc: "descendantsOf ?s' ?F = [?T, ?C] @ hd @ [k1, k2]"
    unfolding descendantsOf_def sc' fuel .
  have c1: "kind (scene ?s' ! ?F) = FRAME" unfolding sc' by (rule kF)
  have c2: "children (scene ?s' ! ?F) = [?T, ?C]" unfolding sc' by (rule chF)
  have c3: "placedAs ?nt 0 0 (scene ?s' ! ?T)" unfolding sc' by (rule pT)
  have c4: "placedAs ?nc 1 0 (scene ?s' ! ?C)" unfolding sc' by (rule pC)
  have c5: "children (scene ?s' ! ?C) = hd @ [k1, k2]" unfolding sc' using ch2 kids by simp
  have c6: "length hd = headingCount fc" using lhd hc by simp
  have c7: "\<forall>h\<in>set hd. kind (scene ?s' ! h) = TEXT \<and> children (scene ?s' ! h) = []"
    unfolding sc' using hd2 by blast
  have c8: "placedAs (BlueprintNode f1 n1) 0 1 (scene ?s' ! k1)" unfolding sc' by (rule pk1)
  have c9: "placedAs (BlueprintNode f2 n2) 1 1 (scene ?s' ! k2)" unfolding sc' by (rule pk2)
  have c10: "length (descendantsOf ?s' ?F) = 4 + headingCount fc"
    unfolding desc using c6 by simp
  show ?thesis
    apply (rule exI [of _ ?s'], rule exI [of _ ?T], rule exI [of _ ?C], rule exI [of _ hd],
        rule exI [of _ k1], rule exI [of _ k2])
    apply (intro conjI)
    apply (rule run c1 c2 c3 c4 c5 c6 c7 c8 c9 desc c10)+
    done
qed

theorem one_frame_roundtrip_witness:
  "\<exists>s' t c k1 k2.
     renderBlueprint accepting \<lparr>frames = Some [sampleFrame]\<rparr> Screen emptySession = (Inr [0], s') \<and>
     children (scene s' ! 0) = [t, c] \<and> children (scene s' ! c) = [k1, k2] \<and>
     descendantsOf s' 0 = [t, c, k1, k2]"
proof -
  have d: "\<not> truthy (frame_description sampleFrame)"
    by (simp add: sampleFrame_def truthy_def)
  have ns: "frame_nodes sampleFrame =
      Some [BlueprintNode (emptyFields\<lparr>node_type := ''text''\<rparr>) None,
            BlueprintNode (emptyFields\<lparr>node_type := ''card''\<rparr>)
              (Some [BlueprintNode (emptyFields\<lparr>node_type := ''text''\<rparr>) None,
                     BlueprintNode (emptyFields\<lparr>node_type := ''text''\<rparr>) None])]"
    by (simp add: sampleFrame_def textNode_def cardNode_def)
  have h: "headingCount (emptyFields\<lparr>node_type := ''card''\<rparr>) = 0"
    by (simp add: headingCount_def emptyFields_def truthy_def)
  from one_frame_roundtrip [OF accepts_accepting d ns, of Screen emptySession]
  obtain s' t c hd k1 k2 where
    "renderBlueprint accepting \<lparr>frames = Some [sampleFrame]\<rparr> Screen emptySession = (Inr [0], s')"
    "children (scene s' ! 0) = [t, c]" "children (scene s' ! c) = hd @ [k1, k2]"
    "length hd = 0" "descendantsOf s' 0 = [t, c] @ hd @ [k1, k2]"
    unfolding h by (auto simp: emptySession_def)
  then show ?thesis by auto
qed

subsection \<open>Font cache\<close>

lemma withFont_consistent:
  assumes "cacheConsistent s"
  shows "cacheConsistent (withFont style s) \<and>
         set (fontLoads (withFont style s)) = insert (''Inter'', style) (set (fontLoads s))"
  using assms unfolding cacheConsistent_def withFont_def setAdd_def by auto

lemma ensureFonts_consistent:
  assumes a: "accepts host"
  shows "cacheConsistent s \<Longrightarrow>
         \<exists>s'. ensureFonts host ws s = (Inr (), s') \<and> cacheConsistent s' \<and>
              set (fontLoads s') = set (fontLoads s) \<union> (\<lambda>w. (''Inter'', fontStyle w)) ` set ws"
proof (induction ws arbitrary: s)
  case Nil
  then show ?case by (simp add: result_def)
next
  case (Cons w ws)
  from withFont_consistent [OF Cons.prems, of "fontStyle w"]
  have c: "cacheConsistent (withFont (fontStyle w) s)"
    and l: "set (fontLoads (withFont (fontStyle w) s)) = insert (''Inter'', fontStyle w) (set (fontLoads s))"
    by simp_all
  from Cons.IH [OF c] obtain s' where
    "ensureFonts host ws (withFont (fontStyle w) s) = (Inr (), s')" "cacheConsistent s'"
    "set (fontLoads s') = set (fontLoads (withFont (fontStyle w) s)) \<union> (\<lambda>w. (''Inter'', fontStyle w)) ` set ws"
    by blast
  then show ?case
    using l by (auto simp: andThen_def ensureFont_accepts [OF a])
qed

lemma distinct_singleton: "distinct xs \<Longrightarrow> set xs = {x} \<Longrightarrow> xs = [x]"
  by (cases xs) (auto simp: subset_singleton_iff Diff_eq_empty_iff dest: distinct_card)

text \<open>
  C4, as stated, on the tokens \<open>regular\<close> and \<open>medium\<close>: they are distinct
  tokens, yet one call for each triggers a single load in all, of the style Medium, because
  the text renderer maps every token other than bold and semi-bold to Medium.
\<close>

theorem regular_medium_share_load_counterexample:
  "Some ''regular'' \<noteq> Some ''medium'' \<and>
   fontLoads (snd (ensureFonts accepting [Some ''regular'', Some ''medium''] emptySession))
     = [(''Inter'', ''Medium'')] \<and>
   fontLoads (snd (placeNodes accepting 0 [weightedText ''regular'', weightedText ''medium''] 0 frameSession))
     = [(''Inter'', ''Medium'')] \<and>
   length (fontLoads (snd (ensureFonts accepting [Some ''regular'', Some ''medium''] emptySession)))
     \<noteq> 2"
  by (simp add: run_defs render_defs sample_defs weightedText_def frameSession_def Let_def)

text \<open>
  C4, amended. In a session that starts with an empty cache and whose font loads succeed,
  any sequence of font-ensuring calls loads each requested style exactly once: the log of
  loads has no duplicate and holds exactly the styles of the tokens asked for. In
  particular N calls (N at least 1) for one token trigger exactly one load. Tokens that
  map to distinct styles have a load each; \<open>regular\<close> and \<open>medium\<close> map to
  the same style and share one.
\<close>

theorem fonts_loaded_once_per_style:
  assumes a: "accepts host" and fresh: "loadedFonts s = []" "fontLoads s = []"
  shows "\<exists>s'. ensureFonts host ws s = (Inr (), s') \<and>
           distinct (fontLoads s') \<and>
           set (fontLoads s') = (\<lambda>w. (''Inter'', fontStyle w)) ` set ws \<and>
           (\<forall>n w. 0 < n \<and> ws = replicate n w \<longrightarrow> fontLoads s' = [(''Inter'', fontStyle w)]) \<and>
           fontStyle (Some ''regular'') = fontStyle (Some ''medium'')"
proof -
  have "cacheConsistent s" using fresh by (simp add: cacheConsistent_def)
  from ensureFonts_consistent [OF a this, of ws] obtain s' where
    r: "ensureFonts host ws s = (Inr (), s')" and c: "cacheConsistent s'"
    and l: "set (fontLoads s') = (\<lambda>w. (''Inter'', fontStyle w)) ` set ws"
    using fresh by auto
  have d: "distinct (fontLoads s')" using c by (simp add: cacheConsistent_def)
  have "\<forall>n w. 0 < n \<and> ws = replicate n w \<longrightarrow> fontLoads s' = [(''Inter'', fontStyle w)]"
  proof (intro allI impI)
    fix n w assume "0 < n \<and> ws = replicate n w"
    then have "set ws = {w}" by auto
    with l have "set (fontLoads s') = {(''Inter'', fontStyle w)}" by simp
    with d show "fontLoads s' = [(''Inter'', fontStyle w)]" by (rule distinct_singleton)
  qed
  moreover have "fontStyle (Some ''regular'') = fontStyle (Some ''medium'')"
    by (simp add: fontStyle_def)
  ultimately show ?thesis using r d l by blast
qed

theorem fonts_loaded_once_per_style_witness:
  "\<exists>s'. ensureFonts accepting (replicate 3 (Some ''bold'')) emptySession = (Inr (), s') \<and>
        fontLoads s' = [(''Inter'', ''Bold'')]"
proof -
  from fonts_loaded_once_per_style [OF accepts_accepting, of emptySession "replicate 3 (Some ''bold'')"]
  obtain s' where "ensureFonts accepting (replicate 3 (Some ''bold'')) emptySession = (Inr (), s')"
    "\<forall>n w. 0 < n \<and> replicate 3 (Some ''bold'') = replicate n w \<longrightarrow> fontLoads s' = [(''Inter'', fontStyle w)]"
    by (auto simp: emptySession_def)
  moreover from this(2) have "fontLoads s' = [(''Inter'', fontStyle (Some ''bold''))]"
    by (metis zero_less_numeral)
  ultimately show ?thesis by (simp add: fontStyle_def)
qed

subsection \<open>Generation flow\<close>

lemma quiet_refl: "quiet w w"
  by (simp add: quiet_def)

lemma quiet_trans: "quiet w w1 \<Longrightarrow> quiet w1 w2 \<Longrightarrow> quiet w w2"
  by (simp add: quiet_def)

lemma andThen_quiet:
  assumes m: "\<And>out w1. m w = (out, w1) \<Longrightarrow> quiet w w1"
    and f: "\<And>a w1 out w2. f a w1 = (out, w2) \<Longrightarrow> quiet w1 w2"
    and run: "andThen m f w = (out, w')"
  shows "quiet w w'"
proof (cases "m w")
  case (Pair res w1)
  show ?thesis
  proof (cases res)
    case (Inl e)
    with Pair run have "w' = w1" by (simp add: andThen_def)
    with m [OF Pair] show ?thesis by simp
  next
    case (Inr a)
    with Pair run have "f a w1 = (out, w')" by (simp add: andThen_def)
    from quiet_trans [OF m [OF Pair] f [OF this]] show ?thesis .
  qed
qed

lemma inSession_quiet: "inSession m w = (out, w') \<Longrightarrow> quiet w w'"
  by (auto simp: inSession_def quiet_def split: prod.splits)

lemma notifyUI_quiet: "quiet w (notifyUI txt tone state w)"
  by (simp add: quiet_def notifyUI_def postMessage_def generationErrors_def)

lemma complete_quiet: "quiet w (postMessage GenerationComplete w)"
  by (simp add: quiet_def postMessage_def generationErrors_def)

lemma callGemini_state:
  "snd (callGemini pf apiKey prompt w) = w\<lparr>requests := requests w @ [(apiKey, prompt)]\<rparr>"
  by (simp add: callGemini_def Let_def split: sum.splits option.splits Payload.splits)

lemma generationAttempt_split:
  "generationAttempt host pf params apiKey =
     andThen (callGemini pf apiKey
                (buildPrompt pf (param_prompt params) (param_mode params)
                   (requestedFrames (param_frameCount params))))
       (afterBlueprint host params)"
  unfolding generationAttempt_def afterBlueprint_def [abs_def] ..

lemma afterBlueprint_quiet:
  assumes "afterBlueprint host params blueprint w = (out, w')"
  shows "quiet w w'"
proof (cases "hasFrames blueprint")
  case False
  with assms show ?thesis by (simp add: afterBlueprint_def throw_def quiet_refl)
next
  case True
  with assms have run: "andThen (\<lambda>w. (Inr (), notifyUI msgDrawing Info Busy w)) (\<lambda>_.
       andThen (inSession (renderBlueprint host
                             (case blueprint of Some bp \<Rightarrow> bp | None \<Rightarrow> \<lparr>frames = None\<rparr>)
                             (param_mode params))) (\<lambda>createdFrames.
       andThen (inSession (select host createdFrames)) (\<lambda>_.
       andThen (inSession (scrollAndZoomIntoView host createdFrames)) (\<lambda>_.
       (\<lambda>w. (Inr (), postMessage GenerationComplete w)))))) w = (out, w')"
    by (simp add: afterBlueprint_def)
  show ?thesis
    apply (rule andThen_quiet [OF _ _ run])
     apply (auto intro: notifyUI_quiet)[1]
    apply (erule andThen_quiet [rotated 2])
     apply (erule inSession_quiet)
    apply (erule andThen_quiet [rotated 2])
     apply (erule inSession_quiet)
    apply (erule andThen_quiet [rotated 2])
     apply (erule inSession_quiet)
    apply (auto intro: complete_quiet)
    done
qed

lemma generationAttempt_traffic:
  assumes "generationAttempt host pf params apiKey w = (out, w')"
  shows "requests w' = requests w @ [(apiKey, buildPrompt pf (param_prompt params) (param_mode params)
                   (requestedFrames (param_frameCount params)))] \<and>
         generationErrors (posted w') = generationErrors (posted w)"
proof -
  let ?p = "buildPrompt pf (param_prompt params) (param_mode params)
                   (requestedFrames (param_frameCount params))"
  obtain res w1 where c: "callGemini pf apiKey ?p w = (res, w1)" by (cases "callGemini pf apiKey ?p w")
  then have w1: "w1 = w\<lparr>requests := requests w @ [(apiKey, ?p)]\<rparr>"
    using callGemini_state [of pf apiKey ?p w] by simp
  show ?thesis
  proof (cases res)
    case (Inl e)
    with c assms have "w' = w1" by (simp add: generationAttempt_split andThen_def)
    with w1 show ?thesis by simp
  next
    case (Inr bp)
    with c assms have "afterBlueprint host params bp w1 = (out, w')"
      by (simp add: generationAttempt_split andThen_def)
    from afterBlueprint_quiet [OF this] w1 show ?thesis by (simp add: quiet_def)
  qed
qed

lemma generateDesign_try:
  assumes p: "param_prompt params \<noteq> []"
    and k: "fst (resolveApiKey pf params (preparing w)) = Inr (Some key)" "key \<noteq> []"
  shows "generateDesign host pf params w =
         tryCatch (generationAttempt host pf params key)
           (\<lambda>e w3. (Inr (), postMessage (GenerationError (errorText e)) w3)) (preparing w)"
proof -
  have "snd (resolveApiKey pf params (preparing w)) = preparing w"
    by (simp add: resolveApiKey_def split: option.splits)
  with k(1) have "resolveApiKey pf params (preparing w) = (Inr (Some key), preparing w)"
    by (metis prod.collapse)
  then show ?thesis
    using p k(2) by (simp add: generateDesign_def andThen_def preparing_def truthy_def nullish_def)
qed

lemma preparing_traffic:
  "requests (preparing w) = requests w"
  "generationErrors (posted (preparing w)) = generationErrors (posted w)"
  "session (preparing w) = session w"
  "posted (preparing w) = posted w @ [Status msgPreparing Info Busy]"
  by (simp_all add: preparing_def notifyUI_def postMessage_def generationErrors_def)

lemma generateDesign_escape:
  assumes "generateDesign host pf params w = (Inl e, w')"
  shows "storageRejects pf = Some e \<and> \<not> truthy (map_option trim (param_apiKeyOverride params))"
proof -
  have nonempty: "param_prompt params \<noteq> []"
    using assms by (auto simp: generateDesign_def)
  obtain res w1 where rk: "resolveApiKey pf params (preparing w) = (res, w1)"
    by (cases "resolveApiKey pf params (preparing w)")
  show ?thesis
  proof (cases res)
    case (Inl e')
    with rk assms nonempty have "e' = e"
      by (simp add: generateDesign_def andThen_def preparing_def)
    with rk Inl show ?thesis
      by (auto simp: resolveApiKey_def split: if_splits option.splits)
  next
    case (Inr apiKey)
    have "fst (generateDesign host pf params w) = Inr ()"
    proof (cases "truthy apiKey")
      case False
      with rk Inr nonempty show ?thesis
        by (simp add: generateDesign_def andThen_def preparing_def)
    next
      case True
      obtain out w2 where g: "generationAttempt host pf params (nullish apiKey []) w1 = (out, w2)"
        by (cases "generationAttempt host pf params (nullish apiKey []) w1")
      with rk Inr nonempty True show ?thesis
        by (cases out) (simp_all add: generateDesign_def andThen_def preparing_def tryCatch_def)
    qed
    with assms show ?thesis by simp
  qed
qed

lemmas flow_defs = generateDesign_def generationAttempt_def callGemini_def resolveApiKey_def
  tryCatch_def throw_def inSession_def notifyUI_def postMessage_def hasFrames_def errorText_def
  combinedText_def preparing_def select_def scrollAndZoomIntoView_def

lemma sample_key:
  "param_prompt sampleParams \<noteq> [] \<and>
   fst (resolveApiKey pf sampleParams (preparing w)) = Inr (Some ''key-123'') \<and>
   ''key-123'' \<noteq> []"
  by (simp add: sampleParams_def resolveApiKey_def truthy_def trim_def isWhiteSpace_def)

lemma offline_attempt:
  "generationAttempt host offline sampleParams ''key-123'' w =
     (Inl (Error ''Failed to fetch''),
      w\<lparr>requests := requests w @ [(''key-123'',
          buildPrompt offline (param_prompt sampleParams) (param_mode sampleParams)
            (requestedFrames (param_frameCount sampleParams)))]\<rparr>)"
  by (simp add: generationAttempt_def callGemini_def andThen_def offline_def Let_def)

lemma render_failure_caught:
  "fst (generateDesign fontless (answering (Some sampleBlueprint)) sampleParams freshPlugin) = Inr () \<and>
   posted (snd (generateDesign fontless (answering (Some sampleBlueprint)) sampleParams freshPlugin)) =
     [Status msgPreparing Info Busy, Status msgDrawing Info Busy,
      GenerationError ''font unavailable'']"
  by (simp add: flow_defs run_defs render_defs sample_defs sampleBlueprint_def
      answering_def fontless_def sampleParams_def freshPlugin_def Let_def extractJson_def
      trim_def isWhiteSpace_def braceSlice_def indexOf_def lastIndexOf_def sliceString_def)

lemma unlines_fifth:
  "\<exists>before after. unlines [l1, l2, l3, l4, l @ x, l6, l7] = before @ l @ x @ after"
  by (rule exI [of _ "unlines [l1, l2, l3, l4] @ [CHR 0x0A]"],
      rule exI [of _ "concat (map ((#) CHR 0x0A) [l6, l7])"])
    (simp add: unlines_def)

text \<open>
  C8. A generation attempt whose prompt and key are present and whose remote call returns
  a parsed blueprint with an empty or missing frames array (or no blueprint object at all)
  ends normally; the panel receives the busy status and then one generation-error carrying
  the guidance to refine the prompt; the session, and so the canvas, is left as it was: no
  frame container is created.
\<close>

theorem empty_frames_is_generation_error:
  assumes p: "param_prompt params \<noteq> []"
    and k: "fst (resolveApiKey pf params (preparing w)) = Inr (Some key)" "key \<noteq> []"
    and c: "fst (callGemini pf key
                   (buildPrompt pf (param_prompt params) (param_mode params)
                      (requestedFrames (param_frameCount params))) (preparing w)) = Inr blueprint"
    and e: "blueprint = None \<or> blueprint = Some \<lparr>frames = None\<rparr> \<or> blueprint = Some \<lparr>frames = Some []\<rparr>"
  shows "fst (generateDesign host pf params w) = Inr () \<and>
         posted (snd (generateDesign host pf params w)) =
           posted w @ [Status msgPreparing Info Busy, GenerationError msgEmptyAnswer] \<and>
         session (snd (generateDesign host pf params w)) = session w"
proof -
  let ?p = "buildPrompt pf (param_prompt params) (param_mode params)
                      (requestedFrames (param_frameCount params))"
  let ?w2 = "(preparing w)\<lparr>requests := requests (preparing w) @ [(key, ?p)]\<rparr>"
  have "callGemini pf key ?p (preparing w) = (Inr blueprint, ?w2)"
    using c callGemini_state [of pf key ?p "preparing w"] by (metis prod.collapse)
  moreover have "\<not> hasFrames blueprint" using e by (auto simp: hasFrames_def)
  ultimately have "generationAttempt host pf params key (preparing w) = (Inl (Error msgEmptyAnswer), ?w2)"
    by (simp add: generationAttempt_def andThen_def throw_def)
  then have "generateDesign host pf params w =
      (Inr (), postMessage (GenerationError msgEmptyAnswer) ?w2)"
    unfolding generateDesign_try [OF p k] by (simp add: tryCatch_def errorText_def)
  then show ?thesis
    by (simp add: postMessage_def preparing_def notifyUI_def)
qed

theorem empty_frames_is_generation_error_witness:
  "fst (generateDesign accepting (answering (Some \<lparr>frames = Some []\<rparr>)) sampleParams freshPlugin) = Inr () \<and>
   posted (snd (generateDesign accepting (answering (Some \<lparr>frames = Some []\<rparr>)) sampleParams freshPlugin)) =
     [Status msgPreparing Info Busy, GenerationError msgEmptyAnswer] \<and>
   scene (session (snd (generateDesign accepting (answering (Some \<lparr>frames = Some []\<rparr>)) sampleParams freshPlugin))) = []"
proof -
  have c: "fst (callGemini (answering (Some \<lparr>frames = Some []\<rparr>)) ''key-123''
                   (buildPrompt (answering (Some \<lparr>frames = Some []\<rparr>)) (param_prompt sampleParams) (param_mode sampleParams)
                      (requestedFrames (param_frameCount sampleParams))) (preparing freshPlugin))
           = Inr (Some \<lparr>frames = Some []\<rparr>)"
    by (simp add: callGemini_def answering_def Let_def combinedText_def orString_def extractJson_def
        trim_def isWhiteSpace_def braceSlice_def indexOf_def lastIndexOf_def sliceString_def)
  from sample_key [of "answering (Some \<lparr>frames = Some []\<rparr>)" freshPlugin]
  have p: "param_prompt sampleParams \<noteq> []"
    and k: "fst (resolveApiKey (answering (Some \<lparr>frames = Some []\<rparr>)) sampleParams (preparing freshPlugin)) = Inr (Some ''key-123'')"
      "''key-123'' \<noteq> []"
    by blast+
  show ?thesis
    using empty_frames_is_generation_error [OF p k c, of accepting]
    by (simp add: freshPlugin_def emptySession_def)
qed

text \<open>
  C9, as stated, fails when no key is typed into the form and the key store rejects the
  read: the read is awaited before the try block is entered, so the rejection leaves
  generateDesign as a throw, and the only message posted is the status that announces the
  request; no generation-error is emitted.
\<close>

theorem key_store_rejection_escapes_counterexample:
  "generateDesign accepting storageDown noOverride freshPlugin =
     (Inl (Error ''storage down''), preparing freshPlugin) \<and>
   fst (generateDesign accepting storageDown noOverride freshPlugin) \<noteq> Inr () \<and>
   posted (snd (generateDesign accepting storageDown noOverride freshPlugin)) =
     [Status msgPreparing Info Busy] \<and>
   generationErrors (posted (snd (generateDesign accepting storageDown noOverride freshPlugin))) = []"
  by (simp add: generateDesign_def andThen_def resolveApiKey_def storageDown_def noOverride_def
      offline_def sampleParams_def truthy_def preparing_def notifyUI_def postMessage_def
      freshPlugin_def generationErrors_def)

text \<open>
  C9, amended. Once the prompt and the key are present, generateDesign returns normally
  whatever happens inside the attempt: a failure of the attempt, of any origin (transport,
  HTTP status, extraction, parsing, empty result, rendering), is turned into exactly one
  generation-error message carrying the error's text, and a successful attempt adds none.
  The only throw that can leave generateDesign is a rejection of the key store, which is
  read before the attempt starts, and only when no key is typed into the form.
\<close>

theorem generateDesign_catches:
  "(\<forall>e w'. generateDesign host pf params w = (Inl e, w') \<longrightarrow>
       storageRejects pf = Some e \<and> \<not> truthy (map_option trim (param_apiKeyOverride params))) \<and>
   (param_prompt params \<noteq> [] \<and> fst (resolveApiKey pf params (preparing w)) = Inr (Some key) \<and>
    key \<noteq> [] \<longrightarrow>
      fst (generateDesign host pf params w) = Inr () \<and>
      (\<forall>e w2. generationAttempt host pf params key (preparing w) = (Inl e, w2) \<longrightarrow>
          generateDesign host pf params w =
            (Inr (), postMessage (GenerationError (errorText e)) w2) \<and>
          generationErrors (posted (snd (generateDesign host pf params w))) =
            generationErrors (posted w) @ [GenerationError (errorText e)]) \<and>
      (\<forall>u w2. generationAttempt host pf params key (preparing w) = (Inr u, w2) \<longrightarrow>
          generateDesign host pf params w = (Inr (), w2) \<and>
          generationErrors (posted w2) = generationErrors (posted w)))"
proof (intro conjI allI impI)
  fix e w' assume "generateDesign host pf params w = (Inl e, w')"
  then show "storageRejects pf = Some e" "\<not> truthy (map_option trim (param_apiKeyOverride params))"
    using generateDesign_escape by blast+
next
  assume h: "param_prompt params \<noteq> [] \<and> fst (resolveApiKey pf params (preparing w)) = Inr (Some key) \<and>
    key \<noteq> []"
  then have t: "generateDesign host pf params w =
         tryCatch (generationAttempt host pf params key)
           (\<lambda>e w3. (Inr (), postMessage (GenerationError (errorText e)) w3)) (preparing w)"
    using generateDesign_try by blast
  obtain out w2 where g: "generationAttempt host pf params key (preparing w) = (out, w2)"
    by (cases "generationAttempt host pf params key (preparing w)")
  show "fst (generateDesign host pf params w) = Inr ()"
    unfolding t using g by (cases out) (simp_all add: tryCatch_def)
  {
    fix e w2 assume a: "generationAttempt host pf params key (preparing w) = (Inl e, w2)"
    show "generateDesign host pf params w = (Inr (), postMessage (GenerationError (errorText e)) w2)"
      unfolding t by (simp add: tryCatch_def a)
    from generationAttempt_traffic [OF a]
    show "generationErrors (posted (snd (generateDesign host pf params w))) =
            generationErrors (posted w) @ [GenerationError (errorText e)]"
      unfolding t by (simp add: tryCatch_def a postMessage_def generationErrors_def preparing_traffic [unfolded generationErrors_def])
  }
  {
    fix u w2 assume a: "generationAttempt host pf params key (preparing w) = (Inr u, w2)"
    show "generateDesign host pf params w = (Inr (), w2)"
      unfolding t by (simp add: tryCatch_def a)
    from generationAttempt_traffic [OF a]
    show "generationErrors (posted w2) = generationErrors (posted w)"
      by (simp add: preparing_traffic(1,2))
  }
qed

theorem generateDesign_catches_witness:
  "fst (generateDesign accepting offline sampleParams freshPlugin) = Inr () \<and>
   posted (snd (generateDesign accepting offline sampleParams freshPlugin)) =
     [Status msgPreparing Info Busy, GenerationError ''Failed to fetch''] \<and>
   generationErrors (posted (snd (generateDesign accepting offline sampleParams freshPlugin))) =
     [GenerationError ''Failed to fetch'']"
proof -
  have g: "generateDesign accepting offline sampleParams freshPlugin =
        (Inr (), postMessage (GenerationError (errorText (Error ''Failed to fetch'')))
           ((preparing freshPlugin)\<lparr>requests := requests (preparing freshPlugin) @ [(''key-123'',
          buildPrompt offline (param_prompt sampleParams) (param_mode sampleParams)
            (requestedFrames (param_frameCount sampleParams)))]\<rparr>))"
    and e: "generationErrors (posted (snd (generateDesign accepting offline sampleParams freshPlugin))) =
            generationErrors (posted freshPlugin) @ [GenerationError (errorText (Error ''Failed to fetch''))]"
    using generateDesign_catches [of accepting offline sampleParams freshPlugin "''key-123''"]
      sample_key [of offline freshPlugin] offline_attempt [of accepting "preparing freshPlugin"]
    by blast+
  show ?thesis
    unfolding e unfolding g
    by (simp add: postMessage_def preparing_def notifyUI_def freshPlugin_def errorText_def
        generationErrors_def)
qed

text \<open>
  C10. Once the prompt and the key are present, the one request sent to the remote
  service carries the prompt built for \<open>frameCount || 3\<close>: 3 when the count is
  absent, zero or not a number, the count itself when it is a non-zero number; and the
  built prompt asks for that number of frames.
\<close>

theorem frame_count_default:
  assumes p: "param_prompt params \<noteq> []"
    and k: "fst (resolveApiKey pf params (preparing w)) = Inr (Some key)" "key \<noteq> []"
  shows "requests (snd (generateDesign host pf params w)) =
           requests w @ [(key, buildPrompt pf (param_prompt params) (param_mode params)
                                 (requestedFrames (param_frameCount params)))] \<and>
         requestedFrames Missing = 3 \<and> requestedFrames (Count 0) = 3 \<and>
         requestedFrames NotANumber = 3 \<and>
         (\<forall>v. v \<noteq> 0 \<longrightarrow> requestedFrames (Count v) = v) \<and>
         (\<exists>before after. buildPrompt pf userPrompt m n =
             before @ ''Frames requested: '' @ numberToString pf n @ after)"
proof -
  obtain out w2 where g: "generationAttempt host pf params key (preparing w) = (out, w2)"
    by (cases "generationAttempt host pf params key (preparing w)")
  from generationAttempt_traffic [OF g]
  have rq: "requests w2 = requests w @ [(key, buildPrompt pf (param_prompt params) (param_mode params)
                                 (requestedFrames (param_frameCount params)))]"
    by (simp add: preparing_traffic(1))
  have "requests (snd (generateDesign host pf params w)) = requests w2"
    unfolding generateDesign_try [OF p k]
    using g by (cases out) (simp_all add: tryCatch_def postMessage_def)
  with rq have 1: "requests (snd (generateDesign host pf params w)) =
           requests w @ [(key, buildPrompt pf (param_prompt params) (param_mode params)
                                 (requestedFrames (param_frameCount params)))]" by simp
  have 2: "\<exists>before after. buildPrompt pf userPrompt m n =
             before @ ''Frames requested: '' @ numberToString pf n @ after"
    unfolding buildPrompt_def by (rule unlines_fifth)
  have 3: "requestedFrames Missing = 3 \<and> requestedFrames (Count 0) = 3 \<and>
         requestedFrames NotANumber = 3 \<and> (\<forall>v. v \<noteq> 0 \<longrightarrow> requestedFrames (Count v) = v)"
    by (simp add: requestedFrames_def)
  from 1 2 3 show ?thesis by blast
qed

theorem frame_count_default_witness:
  "requests (snd (generateDesign accepting offline sampleParams freshPlugin)) =
     [(''key-123'', buildPrompt offline ''landing page'' Screen 3)] \<and>
   requests (snd (generateDesign accepting offline
                    (sampleParams\<lparr>param_frameCount := Count 5\<rparr>) freshPlugin)) =
     [(''key-123'', buildPrompt offline ''landing page'' Screen 5)]"
proof -
  have k5: "param_prompt (sampleParams\<lparr>param_frameCount := Count 5\<rparr>) \<noteq> [] \<and>
      fst (resolveApiKey offline (sampleParams\<lparr>param_frameCount := Count 5\<rparr>) (preparing freshPlugin))
        = Inr (Some ''key-123'') \<and> ''key-123'' \<noteq> []"
    by (simp add: sampleParams_def resolveApiKey_def truthy_def trim_def isWhiteSpace_def)
  show ?thesis
    using frame_count_default [of sampleParams offline freshPlugin "''key-123''" accepting]
      frame_count_default [of "sampleParams\<lparr>param_frameCount := Count 5\<rparr>" offline freshPlugin
        "''key-123''" accepting]
      sample_key [of offline freshPlugin] k5
    by (simp add: sampleParams_def freshPlugin_def requestedFrames_def)
qed

end
